theory Spec2Isabelle
  imports Complex_Main
begin

text \<open>
  A model of the algebraic graph statics of \<open>compas_ags\<close>: the constraint collection of
  \<open>constraints.py\<close> and the analysis and update functions of \<open>graphstatics.py\<close>
  (\<open>form_identify_dof\<close>, \<open>form_count_dof\<close>, \<open>form_update_q_from_qind\<close>,
  \<open>form_update_from_force\<close>, \<open>force_update_from_form\<close> and the remote-execution entry point
  \<open>form_update_from_force_proxy\<close>). A function that mutates a diagram in place returns the
  diagram after the call. The routines of the numerical library that have a meaning in
  exact arithmetic are defined here over the real numbers; the numerical rank (\<open>dof\<close>), the
  sparse solver (\<open>spsolve\<close>) and the relaxation of the core module are parameters of the
  functions that call them.
\<close>

section \<open>Errors and diagrams\<close>

text \<open>
  The Python exceptions that the modelled code can raise, together with the error names of
  the specification's taxonomy. A function that can raise returns \<open>py_error + 'a\<close>, with
  \<open>Inl\<close> for the exception. Floating-point numbers are read as real numbers throughout.
\<close>

datatype py_error =
  IndexError | KeyError | ValueError | UnboundLocalError | LinAlgError
  | DimensionError | SingularSystemError | UnderdeterminedSystemError
  | InconsistentConstraintError

text \<open>
  Modelled from the spec: the diagram classes of \<open>compas_ags.diagrams\<close>, which are not
  among the sources at hand. A diagram stores its vertices and edges in insertion-ordered
  dictionaries: a vertex has a key, the coordinates \<open>x\<close>, \<open>y\<close> and the flag \<open>is_fixed\<close>; an
  edge has its two end keys and the attributes \<open>q\<close>, \<open>f\<close>, \<open>l\<close>, \<open>a\<close>, \<open>is_edge\<close>, \<open>is_ind\<close>. The
  lists below are the dictionaries in iteration order; the keys of a dictionary are
  distinct.
\<close>

record vertex =
  vkey :: nat
  attr_x :: real
  attr_y :: real
  attr_is_fixed :: bool

record edge =
  edge_u :: nat
  edge_v :: nat
  attr_q :: real
  attr_f :: real
  attr_l :: real
  attr_a :: real
  attr_is_edge :: bool
  attr_is_ind :: bool

record diagram =
  vertices :: "vertex list"
  edges :: "edge list"

text \<open>
  Modelled from the spec: the force diagram, a diagram with a designated anchor vertex.
  \<open>ordered_edges\<close> holds the result of \<open>force.ordered_edges(form)\<close>: the edges of the force
  diagram as pairs of vertex indices, listed in the order of the form diagram's edges
  they correspond to.
\<close>

record force_diagram = diagram +
  anchor :: nat
  ordered_edges :: "(nat \<times> nat) list"

definition number_of_vertices :: "'a diagram_scheme \<Rightarrow> nat" where
  "number_of_vertices d = length (vertices d)"

definition number_of_edges :: "'a diagram_scheme \<Rightarrow> nat" where
  "number_of_edges d = length (edges d)"

text \<open>
  \<^verbatim>\<open>{key: index for index, key in enumerate(keys)}\<close>: a later occurrence of a key
  overwrites an earlier one.
\<close>

fun dict_enum :: "nat \<Rightarrow> 'k list \<Rightarrow> ('k \<rightharpoonup> nat)" where
  "dict_enum i [] = Map.empty"
| "dict_enum i (k # ks) = [k \<mapsto> i] ++ dict_enum (Suc i) ks"

text \<open>
  Modelled from the spec: \<open>key_index()\<close> and \<open>uv_index()\<close>, the maps from the vertex keys and
  from the edges to their positions. An edge is looked up in the direction it is stored
  in; where the code needs the opposite direction too, it adds it itself.
\<close>

definition key_index :: "'a diagram_scheme \<Rightarrow> (nat \<rightharpoonup> nat)" where
  "key_index d = dict_enum 0 (map vkey (vertices d))"

definition edge_key :: "edge \<Rightarrow> nat \<times> nat" where
  "edge_key e = (edge_u e, edge_v e)"

definition uv_index :: "'a diagram_scheme \<Rightarrow> (nat \<times> nat \<rightharpoonup> nat)" where
  "uv_index d = dict_enum 0 (map edge_key (edges d))"

definition lookup :: "('k \<rightharpoonup> 'v) \<Rightarrow> 'k \<Rightarrow> py_error + 'v" where
  "lookup m k = (case m k of None \<Rightarrow> Inl KeyError | Some v \<Rightarrow> Inr v)"

section \<open>Sequencing of operations that can raise\<close>

definition bind_err :: "'e + 'a \<Rightarrow> ('a \<Rightarrow> 'e + 'b) \<Rightarrow> 'e + 'b" where
  "bind_err m f = (case m of Inl e \<Rightarrow> Inl e | Inr x \<Rightarrow> f x)"

text \<open>A list comprehension whose element expression can raise: the first failure wins.\<close>

fun map_err :: "('a \<Rightarrow> 'e + 'b) \<Rightarrow> 'a list \<Rightarrow> 'e + 'b list" where
  "map_err f [] = Inr []"
| "map_err f (x # xs) =
     bind_err (f x) (\<lambda>y. bind_err (map_err f xs) (\<lambda>ys. Inr (y # ys)))"

definition nth_err :: "'a list \<Rightarrow> nat \<Rightarrow> py_error + 'a" where
  "nth_err xs i = (if i < length xs then Inr (xs ! i) else Inl IndexError)"

text \<open>
  \<^verbatim>\<open>list(set(range(n)) - set(xs))\<close>, and the same with a second set taken away: the
  indices below \<open>n\<close> that are in none of the lists \<open>xss\<close>. A set is listed in the order of
  its hash table, which is a function of how the set was built, that is of \<open>n\<close> and
  \<open>xss\<close>; it need not be ascending (\<^verbatim>\<open>list(set(range(9)) - set(range(7)))\<close> is
  \<open>[8, 7]\<close>). The order is a parameter: \<open>so n xss i\<close> is the place of the member \<open>i\<close> in the
  table, and the members are listed by increasing place.
\<close>

type_synonym set_order = "nat \<Rightarrow> nat list list \<Rightarrow> nat \<Rightarrow> nat"

definition complement_indices :: "set_order \<Rightarrow> nat \<Rightarrow> nat list list \<Rightarrow> nat list" where
  "complement_indices so n xss =
     sort_key (so n xss) (filter (\<lambda>i. i \<notin> set (concat xss)) [0..<n])"

text \<open>
  A table of \<open>2 ^ k \<ge> 8\<close> places holds a small integer \<open>i\<close> at place \<open>i mod 2 ^ k\<close>, so a
  set whose members are all below 8 is listed in ascending order.
\<close>

definition ascending_order :: set_order where
  "ascending_order n xss i = i"

section \<open>The numerical library (numpy, scipy, sympy, compas.numerical)\<close>

text \<open>
  A matrix is the list of its rows; an array of points is a list of pairs. The functions
  of this section are those of the external numerical library that the code calls, in
  exact arithmetic.
\<close>

type_synonym matrix = "real list list"
type_synonym points = "(real \<times> real) list"

definition ncols :: "matrix \<Rightarrow> nat" where
  "ncols A = (case A of [] \<Rightarrow> 0 | r # _ \<Rightarrow> length r)"

definition inner_prod :: "real list \<Rightarrow> real list \<Rightarrow> real" where
  "inner_prod r c = sum_list (map2 (*) r c)"

text \<open>Matrix products; a dimension mismatch raises ValueError.\<close>

definition dot :: "matrix \<Rightarrow> matrix \<Rightarrow> py_error + matrix" where
  "dot A B =
     (if list_all (\<lambda>r. length r = length B) A
      then Inr (map (\<lambda>r. map (inner_prod r) (transpose B)) A)
      else Inl ValueError)"

definition dot_points :: "matrix \<Rightarrow> points \<Rightarrow> py_error + points" where
  "dot_points A xy =
     (if list_all (\<lambda>r. length r = length xy) A
      then Inr (map (\<lambda>r. (inner_prod r (map fst xy), inner_prod r (map snd xy))) A)
      else Inl ValueError)"

text \<open>The product with the diagonal matrix \<open>diags([d], [0])\<close>.\<close>

definition dot_diag :: "matrix \<Rightarrow> real list \<Rightarrow> py_error + matrix" where
  "dot_diag A d =
     (if list_all (\<lambda>r. length r = length d) A
      then Inr (map (\<lambda>r. map2 (*) r d) A)
      else Inl ValueError)"

text \<open>Fancy indexing \<open>M[idx]\<close>; an index out of range raises IndexError.\<close>

definition take_rows :: "'a list \<Rightarrow> nat list \<Rightarrow> py_error + 'a list" where
  "take_rows M idx =
     (if list_all (\<lambda>i. i < length M) idx then Inr (map ((!) M) idx) else Inl IndexError)"

text \<open>
  Elementwise operation on two column vectors with numpy's broadcasting: the lengths
  must agree unless one of them is 1.
\<close>

definition broadcast2 ::
  "(real \<Rightarrow> real \<Rightarrow> real) \<Rightarrow> real list \<Rightarrow> real list \<Rightarrow> py_error + real list" where
  "broadcast2 h xs ys =
     (if length xs = length ys then Inr (map2 h xs ys)
      else if length xs = 1 then Inr (map (h (hd xs)) ys)
      else if length ys = 1 then Inr (map (\<lambda>x. h x (hd ys)) xs)
      else Inl ValueError)"

text \<open>
  \<open>connectivity_matrix(edges)\<close>: row \<open>e\<close> of an edge \<open>(i, j)\<close> has \<open>-1\<close> in column \<open>i\<close> and \<open>+1\<close>
  in column \<open>j\<close>. The matrix is built from coordinate triplets, so its number of columns is
  the largest vertex index that occurs plus one, entries at the same place add up, and an
  empty edge list raises ValueError (no dimensions to infer).
\<close>

definition connectivity_matrix :: "(nat \<times> nat) list \<Rightarrow> py_error + matrix" where
  "connectivity_matrix es =
     (if es = [] then Inl ValueError
      else
        let n = Suc (fold max (map fst es @ map snd es) 0) in
        Inr (map (\<lambda>(i, j). map (\<lambda>c. (if c = j then 1 else 0) - (if c = i then 1 else 0)) [0..<n])
               es))"

text \<open>
  \<open>equilibrium_matrix(C, xy, free)\<close>: with \<open>uv = C.dot(xy)\<close>, \<open>U\<close> and \<open>V\<close> the diagonal matrices
  of the two columns of \<open>uv\<close>, and \<open>Cti\<close> the rows \<open>free\<close> of the transpose of \<open>C\<close>, the matrix is
  \<open>Cti.dot(U)\<close> stacked on \<open>Cti.dot(V)\<close>: one row per free vertex and coordinate, one column
  per edge.
\<close>

definition equilibrium_matrix :: "matrix \<Rightarrow> points \<Rightarrow> nat list \<Rightarrow> py_error + matrix" where
  "equilibrium_matrix C xy free =
     bind_err (dot_points C xy) (\<lambda>uv.
     bind_err (take_rows (transpose C) free) (\<lambda>Cti.
     Inr (map (\<lambda>r. map2 (*) r (map fst uv)) Cti @ map (\<lambda>r. map2 (*) r (map snd uv)) Cti)))"

text \<open>
  Reduced row-echelon form by Gauss-Jordan elimination, column by column from the left:
  \<open>r\<close> is the row the next pivot goes to. The reduced row-echelon form of a matrix does
  not depend on which non-zero entry of a column is taken as the pivot; the first one at
  or below row \<open>r\<close> is taken here.
\<close>

definition find_pivot :: "matrix \<Rightarrow> nat \<Rightarrow> nat \<Rightarrow> nat option" where
  "find_pivot A r j = find (\<lambda>i. A ! i ! j \<noteq> 0) [r..<length A]"

definition eliminate :: "matrix \<Rightarrow> nat \<Rightarrow> nat \<Rightarrow> nat \<Rightarrow> matrix" where
  "eliminate A r p j =
     (let A1 = A[r := A ! p, p := A ! r];
          pr = map (\<lambda>x. x / (A1 ! r ! j)) (A1 ! r)
      in map (\<lambda>i. if i = r then pr else map2 (\<lambda>a b. a - (A1 ! i ! j) * b) (A1 ! i) pr)
           [0..<length A1])"

fun row_reduce :: "nat \<Rightarrow> nat \<Rightarrow> nat \<Rightarrow> matrix \<Rightarrow> matrix" where
  "row_reduce 0 j r A = A"
| "row_reduce (Suc n) j r A =
     (case find_pivot A r j of
        None \<Rightarrow> row_reduce n (Suc j) r A
      | Some p \<Rightarrow> row_reduce n (Suc j) (Suc r) (eliminate A r p j))"

definition rref :: "matrix \<Rightarrow> matrix" where
  "rref A = row_reduce (ncols A) 0 0 A"

text \<open>
  \<open>pivots(U)\<close>: the column of the first non-zero entry of each row that has one.
  \<open>nonpivots(U)\<close>: \<^verbatim>\<open>list(set(range(U.shape[1])) - set(pivots(U)))\<close>.
\<close>

definition leading :: "real list \<Rightarrow> nat option" where
  "leading row = find (\<lambda>c. row ! c \<noteq> 0) [0..<length row]"

definition pivots :: "matrix \<Rightarrow> nat list" where
  "pivots U = List.map_filter leading U"

definition nonpivots :: "set_order \<Rightarrow> matrix \<Rightarrow> nat list" where
  "nonpivots so U = complement_indices so (ncols U) [pivots U]"


text \<open>The length of a vector in the plane, and \<open>normrow\<close>, the lengths of the rows of an array.\<close>

definition length_vector_xy :: "real \<times> real \<Rightarrow> real" where
  "length_vector_xy u = sqrt ((fst u)\<^sup>2 + (snd u)\<^sup>2)"

definition normrow :: "points \<Rightarrow> real list" where
  "normrow uv = map length_vector_xy uv"

text \<open>
  \<open>angle_vectors_xy(u, v, deg=True)\<close>: the arc cosine, in degrees, of the cosine clamped
  to \<open>[-1, 1]\<close>.
\<close>

definition angle_vectors_xy :: "real \<times> real \<Rightarrow> real \<times> real \<Rightarrow> real" where
  "angle_vectors_xy u v =
     (let c = (fst u * fst v + snd u * snd v) / (length_vector_xy u * length_vector_xy v)
      in arccos (max (min c 1) (- 1)) * 180 / pi)"

text \<open>\<^verbatim>\<open>x[idx] = vals\<close>, entry by entry.\<close>

fun scatter :: "'a list \<Rightarrow> nat list \<Rightarrow> 'a list \<Rightarrow> 'a list" where
  "scatter x (i # idx) (v # vals) = scatter (x[i := v]) idx vals"
| "scatter x _ _ = x"

text \<open>
  \<open>spsolve_with_known(A, b, x, known)\<close>: the columns of the known entries are moved to the
  right-hand side, the remaining square system is handed to the sparse solver once, and
  its solution overwrites the unknown entries of \<open>x\<close>. The solver \<open>spsolve\<close> is a
  parameter.
  \<^verbatim>\<open>
  unknown = list(set(range(x.shape[0])) - set(known))
  A11 = A[unknown, :][:, unknown]
  A12 = A[unknown, :][:, known]
  b = b[unknown] - A12.dot(x[known])
  x[unknown] = spsolve(A11, b)
  \<close>
  \<open>reduced_system\<close> is the part before the solve.
\<close>

definition reduced_system ::
  "set_order \<Rightarrow> matrix \<Rightarrow> points \<Rightarrow> points \<Rightarrow> nat list \<Rightarrow> py_error + matrix \<times> points" where
  "reduced_system so A b x known =
     (let unknown = complement_indices so (length x) [known] in
      bind_err (take_rows A unknown) (\<lambda>Au.
      bind_err (map_err (\<lambda>r. take_rows r unknown) Au) (\<lambda>A11.
      bind_err (map_err (\<lambda>r. take_rows r known) Au) (\<lambda>A12.
      bind_err (take_rows b unknown) (\<lambda>bu.
      bind_err (take_rows x known) (\<lambda>xk.
      bind_err (dot_points A12 xk) (\<lambda>c.
      Inr (A11, map2 (\<lambda>(bx, by) (cx, cy). (bx - cx, by - cy)) bu c))))))))"

definition spsolve_with_known ::
  "set_order \<Rightarrow> (matrix \<Rightarrow> points \<Rightarrow> py_error + points) \<Rightarrow> matrix \<Rightarrow> points \<Rightarrow> points
     \<Rightarrow> nat list \<Rightarrow> py_error + points" where
  "spsolve_with_known so spsolve A b x known =
     (let unknown = complement_indices so (length x) [known] in
      bind_err (reduced_system so A b x known) (\<lambda>(A11, b').
      bind_err (spsolve A11 b') (\<lambda>sol.
      if length sol = length unknown then Inr (scatter x unknown sol)
      else Inl ValueError)))"

text \<open>
  An exact solver to run the update on examples: Gauss-Jordan elimination on the
  augmented matrix, the variables without a pivot set to zero. It always returns.
\<close>

definition gauss_spsolve :: "matrix \<Rightarrow> points \<Rightarrow> py_error + points" where
  "gauss_spsolve A b =
     (let n = length A;
          R = rref (map2 (\<lambda>r (bx, by). r @ [bx, by]) A b)
      in Inr (map (\<lambda>j. case find (\<lambda>row. leading row = Some j) R of
                          None \<Rightarrow> (0, 0)
                        | Some row \<Rightarrow> (row ! n, row ! Suc n)) [0..<n]))"

section \<open>Diagram accessors\<close>

text \<open>
  Modelled from the spec: the accessors of the diagram classes that the code calls,
  \<open>xy()\<close>, \<open>q()\<close>, \<open>fixed()\<close>, \<open>ind()\<close> and \<open>leaves()\<close> (the vertices with exactly one
  neighbour).
\<close>

definition xy_of :: "'a diagram_scheme \<Rightarrow> points" where
  "xy_of d = map (\<lambda>v. (attr_x v, attr_y v)) (vertices d)"

definition q_of :: "'a diagram_scheme \<Rightarrow> real list" where
  "q_of d = map attr_q (edges d)"

definition fixed_keys :: "'a diagram_scheme \<Rightarrow> nat list" where
  "fixed_keys d = map vkey (filter attr_is_fixed (vertices d))"

definition ind_keys :: "'a diagram_scheme \<Rightarrow> (nat \<times> nat) list" where
  "ind_keys d = map edge_key (filter attr_is_ind (edges d))"

definition neighbors :: "'a diagram_scheme \<Rightarrow> nat \<Rightarrow> nat list" where
  "neighbors d k =
     remdups (concat (map (\<lambda>e. (if edge_u e = k then [edge_v e] else [])
                                @ (if edge_v e = k then [edge_u e] else [])) (edges d)))"

definition leaves :: "'a diagram_scheme \<Rightarrow> nat list" where
  "leaves d = map vkey (filter (\<lambda>v. length (neighbors d (vkey v)) = 1) (vertices d))"

text \<open>
  The edges as pairs of vertex indices,
  \<^verbatim>\<open>[(k_i[u], k_i[v]) for u, v in form.edges()]\<close>.
\<close>

definition edge_indices :: "'a diagram_scheme \<Rightarrow> py_error + (nat \<times> nat) list" where
  "edge_indices d =
     map_err (\<lambda>e. bind_err (lookup (key_index d) (edge_u e)) (\<lambda>i.
                   bind_err (lookup (key_index d) (edge_v e)) (\<lambda>j. Inr (i, j))))
       (edges d)"

section \<open>Constraints (constraints.py)\<close>

text \<open>
  \<open>HorizontalFix(form, vertex)\<close> and \<open>VerticalFix(form, vertex)\<close> keep a reference to the
  form diagram they were built against and the key of the vertex they fix.
\<close>

datatype constraint = HorizontalFix diagram nat | VerticalFix diagram nat

fun constraint_form :: "constraint \<Rightarrow> diagram" where
  "constraint_form (HorizontalFix form v) = form"
| "constraint_form (VerticalFix form v) = form"

definition number_of_cols :: "constraint \<Rightarrow> nat" where
  "number_of_cols c = 2 * number_of_vertices (constraint_form c)"

text \<open>\<^verbatim>\<open>row[0, idx] = 1\<close> on a row of \<open>n\<close> zeros; numpy raises IndexError out of range.\<close>

definition set_one :: "nat \<Rightarrow> nat \<Rightarrow> py_error + real list" where
  "set_one n idx = (if idx < n then Inr ((replicate n 0)[idx := 1]) else Inl IndexError)"

fun compute_constraint :: "constraint \<Rightarrow> py_error + (real list \<times> real)" where
  "compute_constraint (HorizontalFix form v) =
     (case lookup (key_index form) v of
        Inl e \<Rightarrow> Inl e
      | Inr idx \<Rightarrow>
          (case set_one (number_of_cols (HorizontalFix form v)) idx of
             Inl e \<Rightarrow> Inl e
           | Inr row \<Rightarrow> Inr (row, 0)))"
| "compute_constraint (VerticalFix form v) =
     (case lookup (key_index form) v of
        Inl e \<Rightarrow> Inl e
      | Inr i \<Rightarrow>
          (case set_one (number_of_cols (VerticalFix form v)) (i + number_of_vertices form) of
             Inl e \<Rightarrow> Inl e
           | Inr row \<Rightarrow> Inr (row, 0)))"

text \<open>
  The loop of \<open>compute_constraints\<close>. The Jacobian starts as an array of shape
  \<open>(0, width)\<close>; \<open>np.vstack\<close> raises ValueError when the row to append has another width,
  so the width of the Jacobian stays the same. The residual is a column of scalars.
\<close>

fun stack_constraints ::
  "nat \<Rightarrow> constraint list \<Rightarrow> real list list \<times> real list
     \<Rightarrow> py_error + (real list list \<times> real list)" where
  "stack_constraints width [] (jac, res) = Inr (jac, res)"
| "stack_constraints width (c # cs) (jac, res) =
     (case compute_constraint c of
        Inl e \<Rightarrow> Inl e
      | Inr (j, r) \<Rightarrow>
          if length j \<noteq> width then Inl ValueError
          else stack_constraints width cs (jac @ [j], res @ [r]))"

text \<open>\<^verbatim>\<open>self.constraints[0]\<close> raises IndexError on an empty collection.\<close>

definition compute_constraints ::
  "constraint list \<Rightarrow> py_error + (real list list \<times> real list)" where
  "compute_constraints cs =
     (case cs of
        [] \<Rightarrow> Inl IndexError
      | c0 # _ \<Rightarrow> stack_constraints (number_of_cols c0) cs ([], []))"

text \<open>The column of the single 1 in the row of a constraint, when its vertex is known.\<close>

fun constraint_column :: "constraint \<Rightarrow> nat option" where
  "constraint_column (HorizontalFix form v) = key_index form v"
| "constraint_column (VerticalFix form v) =
     map_option (\<lambda>i. i + number_of_vertices form) (key_index form v)"

definition one_hot :: "nat \<Rightarrow> nat \<Rightarrow> real list" where
  "one_hot n j = (replicate n 0)[j := 1]"

section \<open>The remote-execution entry point (graphstatics.py)\<close>

text \<open>
  A Python function body reads and writes its local variables by name. A name that is
  assigned anywhere in the body is local; reading it before its first assignment raises
  UnboundLocalError. The frame starts with the parameters bound.
\<close>

datatype 'd pyobj = DataObj 'd | FormObj diagram | ForceObj force_diagram

definition load_fast :: "(string \<rightharpoonup> 'v) \<Rightarrow> string \<Rightarrow> py_error + 'v" where
  "load_fast frame name =
     (case frame name of None \<Rightarrow> Inl UnboundLocalError | Some v \<Rightarrow> Inr v)"

text \<open>
  \<^verbatim>\<open>
  def form_update_from_force_proxy(formdata, forcedata, *args, **kwargs):
      form = FormDiagram.from_data(form)
      force = ForceDiagram.from_data(force)
      form_update_from_force(form, force, *args, **kwargs)
      return form.to_data()
  \<close>
  The constructors \<open>from_data\<close>, the update and \<open>to_data\<close> are parameters; the update
  mutates both diagrams.
\<close>

definition form_update_from_force_proxy ::
  "('d pyobj \<Rightarrow> py_error + diagram) \<Rightarrow> ('d pyobj \<Rightarrow> py_error + force_diagram)
     \<Rightarrow> (diagram \<Rightarrow> force_diagram \<Rightarrow> py_error + diagram \<times> force_diagram)
     \<Rightarrow> (diagram \<Rightarrow> 'd)
     \<Rightarrow> 'd \<Rightarrow> 'd \<Rightarrow> py_error + 'd" where
  "form_update_from_force_proxy form_from_data force_from_data update to_data formdata forcedata =
     (let frame0 = [''formdata'' \<mapsto> DataObj formdata, ''forcedata'' \<mapsto> DataObj forcedata] in
      case load_fast frame0 ''form'' of
        Inl e \<Rightarrow> Inl e
      | Inr arg1 \<Rightarrow>
      (case form_from_data arg1 of
        Inl e \<Rightarrow> Inl e
      | Inr form \<Rightarrow>
      (let frame1 = frame0(''form'' \<mapsto> FormObj form) in
       case load_fast frame1 ''force'' of
        Inl e \<Rightarrow> Inl e
      | Inr arg2 \<Rightarrow>
      (case force_from_data arg2 of
        Inl e \<Rightarrow> Inl e
      | Inr force \<Rightarrow>
      (case update form force of
        Inl e \<Rightarrow> Inl e
      | Inr (form', force') \<Rightarrow> Inr (to_data form'))))))"

section \<open>Analysis of the form diagram (graphstatics.py)\<close>

definition form_identify_dof ::
  "set_order \<Rightarrow> (matrix \<Rightarrow> py_error + int \<times> int) \<Rightarrow> diagram
     \<Rightarrow> py_error + int \<times> int \<times> (nat \<times> nat) list" where
  "form_identify_dof so dof form =
     (let k_i = key_index form;
          xy = xy_of form
      in
      bind_err (map_err (lookup k_i) (fixed_keys form)) (\<lambda>fixed.
      let free = complement_indices so (length (vertices form)) [fixed] in
      bind_err (edge_indices form) (\<lambda>es.
      bind_err (connectivity_matrix es) (\<lambda>C.
      bind_err (equilibrium_matrix C xy free) (\<lambda>E.
      bind_err (dof E) (\<lambda>(k, m).
      let ind = nonpivots so (rref E) in
      bind_err (take_rows es ind) (\<lambda>ind_edges.
      Inr (k, m, ind_edges))))))))"

definition form_count_dof ::
  "set_order \<Rightarrow> (matrix \<Rightarrow> py_error + int \<times> int) \<Rightarrow> diagram \<Rightarrow> py_error + int \<times> int" where
  "form_count_dof so dof form =
     (let k_i = key_index form;
          xy = xy_of form
      in
      bind_err (map_err (lookup k_i) (fixed_keys form)) (\<lambda>fixed.
      let free = complement_indices so (length (vertices form)) [fixed] in
      bind_err (edge_indices form) (\<lambda>es.
      bind_err (connectivity_matrix es) (\<lambda>C.
      bind_err (equilibrium_matrix C xy free) (\<lambda>E.
      bind_err (dof E) (\<lambda>(k, m).
      Inr (k, m)))))))"


section \<open>Force densities from the independent edges\<close>

text \<open>
  The least-squares solution of \<open>Ed x = b\<close> by the normal equations, \<open>Edt\<close> being the list of
  the columns of \<open>Ed\<close>; none when these columns are linearly dependent.
\<close>

definition column :: "matrix \<Rightarrow> nat \<Rightarrow> real list" where
  "column E j = map (\<lambda>row. row ! j) E"

definition solve_dependent :: "real list list \<Rightarrow> real list \<Rightarrow> real list option" where
  "solve_dependent Edt b =
     (let n = length Edt;
          R = rref (map (\<lambda>ci. map (inner_prod ci) Edt @ [inner_prod ci b]) Edt)
      in if pivots R = [0..<n] then Some (map (\<lambda>row. row ! n) R) else None)"

text \<open>
  Modelled from the spec: \<open>update_q_from_qind(E, q, dep, ind)\<close> of \<open>compas_ags.ags.core\<close>,
  which is not among the sources at hand. The equilibrium condition
  \<open>E_dep q_dep + E_ind q_ind = 0\<close> is solved for \<open>q_dep\<close>, which overwrites the dependent
  entries of \<open>q\<close>: a linear solve, by least squares when the dependent block is not
  square. It fails with SingularSystemError when the dependent block is singular.
\<close>

definition update_q_from_qind ::
  "matrix \<Rightarrow> real list \<Rightarrow> nat list \<Rightarrow> nat list \<Rightarrow> py_error + real list" where
  "update_q_from_qind E q dep ind =
     bind_err (take_rows q ind) (\<lambda>qi.
     if \<not> list_all (\<lambda>row. list_all (\<lambda>j. j < length row) (ind @ dep)) E then Inl IndexError
     else
       let Edt = map (column E) dep;
           b = map (\<lambda>row. - inner_prod (map ((!) row) ind) qi) E
       in case solve_dependent Edt b of
            None \<Rightarrow> Inl SingularSystemError
          | Some qd \<Rightarrow> Inr (scatter q dep qd))"

text \<open>
  The loop body of \<open>form_update_q_from_qind\<close>: only an edge with \<open>is_edge\<close> set is visited.
\<close>

definition write_qfl ::
  "(nat \<times> nat \<rightharpoonup> nat) \<Rightarrow> real list \<Rightarrow> real list \<Rightarrow> real list \<Rightarrow> edge \<Rightarrow> py_error + edge" where
  "write_qfl uvi q f l e =
     (if attr_is_edge e then
        bind_err (lookup uvi (edge_key e)) (\<lambda>index.
        bind_err (nth_err q index) (\<lambda>qv.
        bind_err (nth_err f index) (\<lambda>fv.
        bind_err (nth_err l index) (\<lambda>lv.
        Inr (e\<lparr>attr_q := qv, attr_f := fv, attr_l := lv\<rparr>)))))
      else Inr e)"

text \<open>
  \<open>form_update_q_from_qind\<close>, with the routine that overwrites \<open>q\<close> as a parameter.
\<close>

definition form_update_q_from_qind_with ::
  "set_order \<Rightarrow> (matrix \<Rightarrow> real list \<Rightarrow> nat list \<Rightarrow> nat list \<Rightarrow> py_error + real list)
     \<Rightarrow> diagram \<Rightarrow> py_error + diagram" where
  "form_update_q_from_qind_with so upd form =
     (let k_i = key_index form;
          uvi = uv_index form;
          vcount = number_of_vertices form;
          ecount = number_of_edges form
      in
      bind_err (map_err (lookup k_i) (leaves form)) (\<lambda>fixed.
      let free = complement_indices so vcount [fixed] in
      bind_err (map_err (lookup uvi) (ind_keys form)) (\<lambda>ind.
      let dep = complement_indices so ecount [ind] in
      bind_err (edge_indices form) (\<lambda>es.
      let xy = xy_of form;
          q0 = q_of form
      in
      bind_err (connectivity_matrix es) (\<lambda>C.
      bind_err (equilibrium_matrix C xy free) (\<lambda>E.
      bind_err (upd E q0 dep ind) (\<lambda>q.
      bind_err (dot_points C xy) (\<lambda>uv.
      let l = normrow uv in
      bind_err (broadcast2 (*) q l) (\<lambda>f.
      bind_err (map_err (write_qfl uvi q f l) (edges form)) (\<lambda>es'.
      Inr (form\<lparr>edges := es'\<rparr>)))))))))))"

definition form_update_q_from_qind :: "set_order \<Rightarrow> diagram \<Rightarrow> py_error + diagram" where
  "form_update_q_from_qind so form = form_update_q_from_qind_with so update_q_from_qind form"

section \<open>Form diagram from force diagram\<close>

text \<open>
  \<open>_uv_e\<close> of \<open>form_update_from_force\<close>: the ordered edges of the force diagram, as pairs
  of vertex keys, mapped to their position, in both directions.
  \<^verbatim>\<open>
  _i_k = {index: key for index, key in enumerate(force.vertices())}
  _uv_e = {(_i_k[i], _i_k[j]): index for index, (i, j) in enumerate(_edges)}
  _uv_e.update({(v, u): _uv_e[u, v] for u, v in _uv_e})
  \<close>
\<close>

definition force_uv_index :: "force_diagram \<Rightarrow> py_error + (nat \<times> nat \<rightharpoonup> nat)" where
  "force_uv_index force =
     (let keys = map vkey (vertices force) in
      bind_err (map_err (\<lambda>(i, j). if i < length keys \<and> j < length keys
                                    then Inr (keys ! i, keys ! j) else Inl KeyError)
                  (ordered_edges force)) (\<lambda>uvs.
      let d = dict_enum 0 uvs in
      Inr (d ++ (\<lambda>(v, u). d (u, v)))))"

definition write_xy :: "(nat \<rightharpoonup> nat) \<Rightarrow> points \<Rightarrow> vertex \<Rightarrow> py_error + vertex" where
  "write_xy k_i xy v =
     bind_err (lookup k_i (vkey v)) (\<lambda>index.
     bind_err (nth_err xy index) (\<lambda>(x, y).
     Inr (v\<lparr>attr_x := x, attr_y := y\<rparr>)))"

definition write_form_edge ::
  "(nat \<times> nat \<rightharpoonup> nat) \<Rightarrow> real list \<Rightarrow> real list \<Rightarrow> real list \<Rightarrow> real list \<Rightarrow> edge
     \<Rightarrow> py_error + edge" where
  "write_form_edge uv_e l a l' q e =
     bind_err (lookup uv_e (edge_key e)) (\<lambda>i.
     bind_err (nth_err l i) (\<lambda>lv.
     bind_err (nth_err a i) (\<lambda>av.
     if av < 90 then
       bind_err (nth_err l' i) (\<lambda>fv.
       bind_err (nth_err q i) (\<lambda>qv.
       Inr (e\<lparr>attr_l := lv, attr_a := av, attr_f := fv, attr_q := qv\<rparr>)))
     else
       bind_err (nth_err l' i) (\<lambda>fv.
       bind_err (nth_err q i) (\<lambda>qv.
       Inr (e\<lparr>attr_l := lv, attr_a := av, attr_f := - fv, attr_q := - qv\<rparr>))))))"

definition write_force_edge ::
  "(nat \<times> nat \<rightharpoonup> nat) \<Rightarrow> real list \<Rightarrow> real list \<Rightarrow> edge \<Rightarrow> py_error + edge" where
  "write_force_edge uv_e' a l' e =
     bind_err (lookup uv_e' (edge_key e)) (\<lambda>i.
     bind_err (nth_err a i) (\<lambda>av.
     bind_err (nth_err l' i) (\<lambda>lv.
     Inr (e\<lparr>attr_a := av, attr_l := lv\<rparr>))))"

text \<open>
  \<open>form_update_from_force(form, force, kmax)\<close>. The relaxation \<open>update_form_from_force\<close> of
  \<open>compas_ags.ags.core\<close> overwrites the array \<open>xy\<close> in place; it is the parameter \<open>core\<close>,
  which returns the new contents of \<open>xy\<close>. The dictionaries \<open>i_j\<close> and \<open>ij_e\<close> that the code
  hands to it are functions of the list of edges, which is handed over in their place.
  Names with a prime are the underscore names of the code (the force diagram's).
\<close>

definition form_update_from_force ::
  "set_order
     \<Rightarrow> (points \<Rightarrow> points \<Rightarrow> nat list \<Rightarrow> nat list \<Rightarrow> (nat \<times> nat) list \<Rightarrow> matrix \<Rightarrow> nat
          \<Rightarrow> py_error + points)
     \<Rightarrow> diagram \<Rightarrow> force_diagram \<Rightarrow> nat \<Rightarrow> py_error + diagram \<times> force_diagram" where
  "form_update_from_force so core form force kmax =
     (let k_i = key_index form;
          uv_e = uv_index form;
          xy = xy_of form
      in
      bind_err (edge_indices form) (\<lambda>es.
      bind_err (connectivity_matrix es) (\<lambda>C.
      bind_err (map_err (lookup k_i) (leaves form)) (\<lambda>lvs.
      bind_err (map_err (lookup k_i) (fixed_keys form)) (\<lambda>fixed.
      let free = complement_indices so (number_of_vertices form) [fixed, lvs];
          xy' = xy_of force;
          es' = ordered_edges force
      in
      bind_err (force_uv_index force) (\<lambda>uv_e'.
      bind_err (connectivity_matrix es') (\<lambda>C'.
      bind_err (core xy xy' free lvs es C' kmax) (\<lambda>xy.
      bind_err (dot_points C xy) (\<lambda>uv.
      bind_err (dot_points C' xy') (\<lambda>uv'.
      bind_err (map_err (\<lambda>i. bind_err (nth_err uv i) (\<lambda>u.
                              bind_err (nth_err uv' i) (\<lambda>u'.
                              Inr (angle_vectors_xy u u'))))
                  [0..<length es]) (\<lambda>a.
      let l = normrow uv;
          l' = normrow uv'
      in
      bind_err (broadcast2 (/) l' l) (\<lambda>q.
      bind_err (map_err (write_xy k_i xy) (vertices form)) (\<lambda>vs.
      bind_err (map_err (write_form_edge uv_e l a l' q) (edges form)) (\<lambda>form_edges.
      bind_err (map_err (write_force_edge uv_e' a l') (edges force)) (\<lambda>force_edges.
      Inr (form\<lparr>vertices := vs, edges := form_edges\<rparr>,
           force\<lparr>edges := force_edges\<rparr>))))))))))))))))"

section \<open>Force diagram from form diagram\<close>

text \<open>
  The linear system of \<open>force_update_from_form\<close>: the matrix \<open>_Ct.dot(_C)\<close>, the right-hand
  side \<open>_Ct.dot(Q).dot(uv)\<close>, the current coordinates \<open>_xy\<close> of the force diagram and the
  index of its anchor.
\<close>

definition force_system ::
  "force_diagram \<Rightarrow> diagram \<Rightarrow> py_error + matrix \<times> points \<times> points \<times> nat" where
  "force_system force form =
     (let k_i = key_index form;
          xy = xy_of form
      in
      bind_err (edge_indices form) (\<lambda>es.
      bind_err (connectivity_matrix es) (\<lambda>C.
      let Q = q_of form in
      bind_err (dot_points C xy) (\<lambda>uv.
      let k_i' = key_index force in
      bind_err (lookup k_i' (anchor force)) (\<lambda>known.
      let xy' = xy_of force;
          es' = ordered_edges force
      in
      bind_err (connectivity_matrix es') (\<lambda>C'.
      let Ct' = transpose C' in
      bind_err (dot Ct' C') (\<lambda>A.
      bind_err (dot_diag Ct' Q) (\<lambda>CtQ.
      bind_err (dot_points CtQ uv) (\<lambda>b.
      Inr (A, b, xy', known))))))))))"

definition force_update_from_form ::
  "set_order \<Rightarrow> (matrix \<Rightarrow> points \<Rightarrow> py_error + points) \<Rightarrow> force_diagram \<Rightarrow> diagram
     \<Rightarrow> py_error + force_diagram" where
  "force_update_from_form so spsolve force form =
     bind_err (force_system force form) (\<lambda>(A, b, xy', known).
     bind_err (spsolve_with_known so spsolve A b xy' [known]) (\<lambda>xy'.
     bind_err (map_err (write_xy (key_index force) xy') (vertices force)) (\<lambda>vs.
     Inr (force\<lparr>vertices := vs\<rparr>))))"



section \<open>Example inputs\<close>

definition vtx :: "nat \<Rightarrow> real \<Rightarrow> real \<Rightarrow> bool \<Rightarrow> vertex" where
  "vtx k x y fixed = \<lparr>vkey = k, attr_x = x, attr_y = y, attr_is_fixed = fixed\<rparr>"

definition edg :: "nat \<Rightarrow> nat \<Rightarrow> real \<Rightarrow> bool \<Rightarrow> bool \<Rightarrow> edge" where
  "edg u v q is_edge is_ind =
     \<lparr>edge_u = u, edge_v = v, attr_q = q, attr_f = 0, attr_l = 0, attr_a = 0,
      attr_is_edge = is_edge, attr_is_ind = is_ind\<rparr>"

text \<open>Three vertices, and the same three with a fourth one added.\<close>

definition form3 :: diagram where
  "form3 = \<lparr>vertices = [vtx 0 0 0 True, vtx 1 1 0 False, vtx 2 0 1 False], edges = []\<rparr>"

definition form4 :: diagram where
  "form4 = \<lparr>vertices = [vtx 0 0 0 True, vtx 1 1 0 False, vtx 2 0 1 False, vtx 3 1 1 False],
             edges = []\<rparr>"

text \<open>
  A triangle with its first vertex fixed at the origin, all edges independent, the third
  edge with force density \<open>q3\<close> and flag \<open>is_edge = e3\<close>; and a bar.
\<close>

definition tri_form :: "real \<Rightarrow> real \<Rightarrow> real \<Rightarrow> real \<Rightarrow> real \<Rightarrow> bool \<Rightarrow> diagram" where
  "tri_form x1 y1 x2 y2 q3 e3 =
     \<lparr>vertices = [vtx 0 0 0 True, vtx 1 x1 y1 False, vtx 2 x2 y2 False],
      edges = [edg 0 1 1 True True, edg 1 2 1 True True, edg 2 0 q3 e3 True]\<rparr>"

definition triangle :: "real \<Rightarrow> real \<Rightarrow> real \<Rightarrow> real \<Rightarrow> diagram" where
  "triangle x1 y1 x2 y2 = tri_form x1 y1 x2 y2 1 True"

text \<open>The same with an auxiliary third edge (\<open>is_edge\<close> not set) of force density 5.\<close>

definition hinged :: diagram where
  "hinged = tri_form 3 0 0 4 5 False"

definition bar :: diagram where
  "bar = \<lparr>vertices = [vtx 0 0 0 True, vtx 1 1 0 False], edges = [edg 0 1 1 True True]\<rparr>"

text \<open>Examples: a form diagram that is a path of two edges, and two force diagrams.\<close>

definition path_form :: diagram where
  "path_form = \<lparr>vertices = [vtx 0 0 0 True, vtx 1 1 0 False, vtx 2 2 0 False],
                 edges = [edg 0 1 1 True True, edg 1 2 1 True True]\<rparr>"


definition chain_force :: force_diagram where
  "chain_force = \<lparr>vertices = [vtx 0 0 0 False, vtx 1 3 0 False, vtx 2 7 7 False],
                   edges = [edg 0 1 0 True False, edg 1 2 0 True False],
                   anchor = 0, ordered_edges = [(0, 1), (1, 2)]\<rparr>"


text \<open>
  A relaxation that leaves the coordinates as they are, and a force diagram for the bar.
\<close>

definition keep_xy ::
  "points \<Rightarrow> points \<Rightarrow> nat list \<Rightarrow> nat list \<Rightarrow> (nat \<times> nat) list \<Rightarrow> matrix \<Rightarrow> nat
     \<Rightarrow> py_error + points" where
  "keep_xy xy xy' free lvs es C' kmax = Inr xy"

definition bar_force :: force_diagram where
  "bar_force = \<lparr>vertices = [vtx 0 0 0 False, vtx 1 2 0 False], edges = [edg 0 1 0 True False],
                 anchor = 0, ordered_edges = [(0, 1)]\<rparr>"

text \<open>A force diagram whose edge is at a right angle to the bar.\<close>

definition bar_force_up :: force_diagram where
  "bar_force_up = \<lparr>vertices = [vtx 0 0 0 False, vtx 1 0 2 False], edges = [edg 0 1 0 True False],
                    anchor = 0, ordered_edges = [(0, 1)]\<rparr>"

section \<open>Properties of the constraint collection\<close>

lemma dict_enum_bounds:
  "dict_enum i ks k = Some j \<Longrightarrow> i \<le> j \<and> j < i + length ks"
proof (induction ks arbitrary: i)
  case Nil
  then show ?case by simp
next
  case (Cons a ks)
  show ?case
  proof (cases "dict_enum (Suc i) ks k")
    case None
    with Cons.prems show ?thesis
      by (auto simp: map_add_def split: if_splits)
  next
    case (Some j')
    with Cons.prems have "j' = j" by (simp add: map_add_def)
    with Some Cons.IH [of "Suc i"] show ?thesis by auto
  qed
qed

lemma key_index_less:
  "key_index form v = Some i \<Longrightarrow> i < number_of_vertices form"
  using dict_enum_bounds [of 0 "map vkey (vertices form)" v i]
  by (simp add: key_index_def number_of_vertices_def)

lemma compute_constraint_row:
  assumes "constraint_column c = Some j"
  shows "compute_constraint c = Inr (one_hot (number_of_cols c) j, 0)"
proof (cases c)
  case (HorizontalFix form v)
  with assms have k: "key_index form v = Some j" by simp
  then have "j < 2 * number_of_vertices form"
    using key_index_less [OF k] by simp
  with k HorizontalFix show ?thesis
    by (simp add: lookup_def set_one_def one_hot_def number_of_cols_def)
next
  case (VerticalFix form v)
  with assms obtain i where k: "key_index form v = Some i"
    and j: "j = i + number_of_vertices form" by auto
  have "j < 2 * number_of_vertices form"
    using key_index_less [OF k] j by simp
  with k j VerticalFix show ?thesis
    by (simp add: lookup_def set_one_def one_hot_def number_of_cols_def)
qed

lemma compute_constraint_error:
  "compute_constraint c = Inl e \<Longrightarrow> e = KeyError"
proof (cases c)
  case (HorizontalFix form v)
  assume err: "compute_constraint c = Inl e"
  show ?thesis
  proof (cases "key_index form v")
    case None
    with err HorizontalFix show ?thesis by (simp add: lookup_def)
  next
    case (Some i)
    then have "constraint_column c = Some i" using HorizontalFix by simp
    from compute_constraint_row [OF this] err show ?thesis by simp
  qed
next
  case (VerticalFix form v)
  assume err: "compute_constraint c = Inl e"
  show ?thesis
  proof (cases "key_index form v")
    case None
    with err VerticalFix show ?thesis by (simp add: lookup_def)
  next
    case (Some i)
    then have "constraint_column c = Some (i + number_of_vertices form)"
      using VerticalFix by simp
    from compute_constraint_row [OF this] err show ?thesis by simp
  qed
qed

lemma compute_constraint_width:
  "compute_constraint c = Inr (j, r) \<Longrightarrow> length j = number_of_cols c \<and> r = 0"
proof -
  assume ok: "compute_constraint c = Inr (j, r)"
  have "constraint_column c \<noteq> None"
  proof
    assume "constraint_column c = None"
    then have "compute_constraint c = Inl KeyError"
      by (cases c) (simp_all add: lookup_def)
    with ok show False by simp
  qed
  then obtain k where "constraint_column c = Some k" by auto
  from compute_constraint_row [OF this] ok show ?thesis
    by (simp add: one_hot_def)
qed

lemma stack_constraints_all:
  assumes "\<forall>c \<in> set cs. number_of_cols c = n \<and> constraint_column c \<noteq> None"
  shows "stack_constraints n cs (jac, res) =
           Inr (jac @ map (\<lambda>c. one_hot n (the (constraint_column c))) cs,
                res @ replicate (length cs) 0)"
  using assms
proof (induction cs arbitrary: jac res)
  case Nil
  then show ?case by simp
next
  case (Cons c cs)
  from Cons.prems obtain j where j: "constraint_column c = Some j"
    and n: "number_of_cols c = n" by auto
  have row: "compute_constraint c = Inr (one_hot n j, 0)"
    using compute_constraint_row [OF j] n by simp
  have "stack_constraints n (c # cs) (jac, res)
          = stack_constraints n cs (jac @ [one_hot n j], res @ [0])"
    using row by (simp add: one_hot_def)
  also have "\<dots> = Inr ((jac @ [one_hot n j]) @ map (\<lambda>c. one_hot n (the (constraint_column c))) cs,
                        (res @ [0]) @ replicate (length cs) 0)"
    using Cons.IH [of "jac @ [one_hot n j]" "res @ [0]"] Cons.prems by simp
  finally show ?case using j by (simp add: replicate_append_same)
qed

lemma stack_constraints_mismatch:
  assumes "\<exists>c \<in> set cs. number_of_cols c \<noteq> n"
  shows "stack_constraints n cs (jac, res) = Inl ValueError
           \<or> stack_constraints n cs (jac, res) = Inl KeyError"
  using assms
proof (induction cs arbitrary: jac res)
  case Nil
  then show ?case by simp
next
  case (Cons c cs)
  show ?case
  proof (cases "compute_constraint c")
    case (Inl e)
    then have "e = KeyError" by (rule compute_constraint_error)
    with Inl show ?thesis by simp
  next
    case (Inr p)
    obtain j r where p: "p = (j, r)" by (cases p)
    from compute_constraint_width Inr p have w: "length j = number_of_cols c" by blast
    show ?thesis
    proof (cases "number_of_cols c = n")
      case True
      with Cons.prems have "\<exists>c \<in> set cs. number_of_cols c \<noteq> n" by auto
      from Cons.IH [OF this] Inr p w True show ?thesis by simp
    next
      case False
      with Inr p w show ?thesis by simp
    qed
  qed
qed

lemma stack_constraints_mismatch_known:
  assumes "\<exists>c \<in> set cs. number_of_cols c \<noteq> n"
    and "\<forall>c \<in> set cs. constraint_column c \<noteq> None"
  shows "stack_constraints n cs (jac, res) = Inl ValueError"
proof -
  have "stack_constraints n cs (jac, res) \<noteq> Inl KeyError"
    using assms
  proof (induction cs arbitrary: jac res)
    case Nil
    then show ?case by simp
  next
    case (Cons c cs)
    from Cons.prems obtain j where j: "constraint_column c = Some j" by auto
    note row = compute_constraint_row [OF j]
    show ?case
    proof (cases "number_of_cols c = n")
      case True
      with Cons.prems have "\<exists>c \<in> set cs. number_of_cols c \<noteq> n" by auto
      moreover from Cons.prems have "\<forall>c \<in> set cs. constraint_column c \<noteq> None" by simp
      ultimately have "stack_constraints n cs (jac @ [one_hot n j], res @ [0]) \<noteq> Inl KeyError"
        by (rule Cons.IH)
      with row True show ?thesis by (simp add: one_hot_def)
    next
      case False
      with row show ?thesis by (simp add: one_hot_def)
    qed
  qed
  with stack_constraints_mismatch [OF assms(1)] show ?thesis by blast
qed

section \<open>Properties of the numerical library\<close>

lemma bind_err_eq_Inr:
  "bind_err m f = Inr y \<longleftrightarrow> (\<exists>x. m = Inr x \<and> f x = Inr y)"
  by (cases m) (simp_all add: bind_err_def)

lemma bind_err_Inr [simp]: "bind_err (Inr x) f = f x"
  by (simp add: bind_err_def)

lemma bind_err_Inl [simp]: "bind_err (Inl e) f = Inl e"
  by (simp add: bind_err_def)

lemma map_err_Inr:
  "map_err f xs = Inr ys \<Longrightarrow>
     length ys = length xs \<and> (\<forall>i < length xs. f (xs ! i) = Inr (ys ! i))"
proof (induction xs arbitrary: ys)
  case Nil
  then show ?case by simp
next
  case (Cons x xs)
  from Cons.prems obtain y ys' where y: "f x = Inr y" and ys': "map_err f xs = Inr ys'"
    and ys: "ys = y # ys'"
    by (auto simp: bind_err_eq_Inr)
  from Cons.IH [OF ys'] y ys show ?case
    by (auto simp: nth_Cons split: nat.splits)
qed

lemma complement_indices_less: "i \<in> set (complement_indices so n xss) \<Longrightarrow> i < n"
  by (simp add: complement_indices_def)

lemma take_rows_ok: "\<forall>i \<in> set idx. i < length M \<Longrightarrow> take_rows M idx = Inr (map ((!) M) idx)"
  by (simp add: take_rows_def list_all_iff)

lemma take_rows_Inr: "take_rows M idx = Inr N \<Longrightarrow> N = map ((!) M) idx \<and> (\<forall>i \<in> set idx. i < length M)"
  by (auto simp: take_rows_def list_all_iff split: if_splits)

text \<open>Row reduction keeps the rows within a common width.\<close>

lemma find_pivot_range: "find_pivot A r j = Some p \<Longrightarrow> r \<le> p \<and> p < length A"
  by (auto simp: find_pivot_def find_Some_iff)

lemma eliminate_width:
  assumes "\<forall>row \<in> set A. length row \<le> c" and "r \<le> p" and "p < length A"
  shows "\<forall>row \<in> set (eliminate A r p j). length row \<le> c"
proof -
  let ?A1 = "A[r := A ! p, p := A ! r]"
  have "set ?A1 \<subseteq> set A"
    using assms(2,3) by (auto dest!: subsetD [OF set_update_subset_insert])
  with assms(1) have w: "\<forall>i < length ?A1. length (?A1 ! i) \<le> c"
    by (metis nth_mem subsetD)
  have r: "r < length ?A1" using assms(2,3) by simp
  show ?thesis
    unfolding eliminate_def Let_def
    using w r by (auto simp: min_le_iff_disj)
qed

lemma eliminate_length: "length (eliminate A r p j) = length A"
  by (simp add: eliminate_def Let_def)

lemma row_reduce_width:
  "\<forall>row \<in> set A. length row \<le> c \<Longrightarrow> \<forall>row \<in> set (row_reduce n j r A). length row \<le> c"
proof (induction n arbitrary: j r A)
  case 0
  then show ?case by simp
next
  case (Suc n)
  show ?case
  proof (cases "find_pivot A r j")
    case None
    with Suc show ?thesis by simp
  next
    case (Some p)
    from find_pivot_range [OF Some] Suc.prems
    have "\<forall>row \<in> set (eliminate A r p j). length row \<le> c"
      by (intro eliminate_width) auto
    from Suc.IH [OF this] Some show ?thesis by simp
  qed
qed

lemma ncols_le: "\<forall>row \<in> set A. length row \<le> c \<Longrightarrow> ncols A \<le> c"
  by (cases A) (simp_all add: ncols_def)

lemma nonpivots_less: "i \<in> set (nonpivots so U) \<Longrightarrow> i < ncols U"
  by (simp add: nonpivots_def complement_indices_less)

lemma connectivity_matrix_shape:
  assumes "connectivity_matrix es = Inr C"
  shows "length C = length es \<and> es \<noteq> []
         \<and> (\<forall>row \<in> set C. length row = Suc (fold max (map fst es @ map snd es) 0))"
  using assms by (auto simp: connectivity_matrix_def Let_def split: if_splits)

lemma transpose_rows:
  assumes "\<forall>row \<in> set C. length row = n" and "C \<noteq> []"
  shows "length (transpose C) = n \<and> (\<forall>row \<in> set (transpose C). length row = length C)"
proof -
  have "transpose C = map (\<lambda>i. map (\<lambda>j. C ! j ! i) [0..<length C]) [0..<n]"
    using assms by (intro transpose_rectangle) auto
  then show ?thesis by auto
qed

lemma dot_points_Inr:
  "dot_points A xy = Inr uv \<Longrightarrow>
     length uv = length A \<and> (\<forall>row \<in> set A. length row = length xy)
     \<and> uv = map (\<lambda>r. (inner_prod r (map fst xy), inner_prod r (map snd xy))) A"
  by (auto simp: dot_points_def list_all_iff split: if_splits)

lemma equilibrium_matrix_shape:
  assumes C: "connectivity_matrix es = Inr C"
    and E: "equilibrium_matrix C xy free = Inr E"
  shows "length E = 2 * length free \<and> (\<forall>row \<in> set E. length row = length es)"
proof -
  from E obtain uv Cti where uv: "dot_points C xy = Inr uv"
    and Cti: "take_rows (transpose C) free = Inr Cti"
    and Eq: "E = map (\<lambda>r. map2 (*) r (map fst uv)) Cti @ map (\<lambda>r. map2 (*) r (map snd uv)) Cti"
    by (auto simp: equilibrium_matrix_def bind_err_eq_Inr)
  note sh = connectivity_matrix_shape [OF C]
  from sh have ne: "C \<noteq> []" by auto
  from transpose_rows [OF _ ne] sh
  have tr: "\<forall>row \<in> set (transpose C). length row = length es" by auto
  from take_rows_Inr [OF Cti] have "set Cti \<subseteq> set (transpose C)" and lc: "length Cti = length free"
    by auto
  with tr have rows: "\<forall>row \<in> set Cti. length row = length es" by auto
  from dot_points_Inr [OF uv] sh have luv: "length uv = length es" by simp
  show ?thesis using rows luv lc Eq by auto
qed

lemma independent_edges_in_range:
  assumes "connectivity_matrix es = Inr C" and "equilibrium_matrix C xy free = Inr E"
  shows "take_rows es (nonpivots so (rref E)) = Inr (map ((!) es) (nonpivots so (rref E)))"
proof -
  from equilibrium_matrix_shape [OF assms]
  have "\<forall>row \<in> set E. length row \<le> length es" by auto
  then have "\<forall>row \<in> set (rref E). length row \<le> length es"
    unfolding rref_def by (rule row_reduce_width)
  then have "ncols (rref E) \<le> length es" by (rule ncols_le)
  then have "\<forall>i \<in> set (nonpivots so (rref E)). i < length es"
    using nonpivots_less by fastforce
  then show ?thesis by (rule take_rows_ok)
qed

section \<open>The triangle\<close>

lemma update_q_no_dependent:
  assumes "list_all (\<lambda>i. i < length q) ind"
    and "list_all (\<lambda>row. list_all (\<lambda>j. j < length row) ind) E"
  shows "update_q_from_qind E q [] ind = Inr q"
  using assms
  by (simp add: update_q_from_qind_def take_rows_def solve_dependent_def rref_def ncols_def
      pivots_def List.map_filter_simps)

lemma tri_key_index:
  "key_index (tri_form x1 y1 x2 y2 q3 e3) = [0 \<mapsto> 0, 1 \<mapsto> 1, 2 \<mapsto> 2]"
  by (auto simp: key_index_def tri_form_def vtx_def map_add_def fun_eq_iff numeral_eq_Suc)

lemma tri_uv_index:
  "uv_index (tri_form x1 y1 x2 y2 q3 e3) = [(0, 1) \<mapsto> 0, (1, 2) \<mapsto> 1, (2, 0) \<mapsto> 2]"
  by (auto simp: uv_index_def tri_form_def edg_def edge_key_def map_add_def fun_eq_iff
      numeral_eq_Suc)

lemma tri_leaves: "leaves (tri_form x1 y1 x2 y2 q3 e3) = []"
  by (simp add: leaves_def neighbors_def tri_form_def vtx_def edg_def)

lemma tri_ind_keys: "ind_keys (tri_form x1 y1 x2 y2 q3 e3) = [(0, 1), (1, 2), (2, 0)]"
  by (simp add: ind_keys_def edge_key_def tri_form_def edg_def)

lemma tri_edge_indices:
  "edge_indices (tri_form x1 y1 x2 y2 q3 e3) = Inr [(0, 1), (1, 2), (2, 0)]"
  unfolding edge_indices_def tri_key_index
  by (simp add: tri_form_def edg_def lookup_def)

lemma tri_connectivity:
  "connectivity_matrix [(0, 1), (1, 2), (2, 0)] = Inr [[- 1, 1, 0], [0, - 1, 1], [1, 0, - 1]]"
  by (simp add: connectivity_matrix_def numeral_eq_Suc)

lemma tri_uv:
  "dot_points [[- 1, 1, 0], [0, - 1, 1], [1, 0, - 1]] (xy_of (tri_form x1 y1 x2 y2 q3 e3))
     = Inr [(x1, y1), (x2 - x1, y2 - y1), (- x2, - y2)]"
  by (simp add: dot_points_def xy_of_def tri_form_def vtx_def inner_prod_def)

lemma three: "[0..<3] = [0, 1, 2]"
  by (simp add: numeral_eq_Suc)

lemma tri_update_q_run:
  "form_update_q_from_qind_with so update_q_from_qind (tri_form x1 y1 x2 y2 q3 e3) =
     bind_err
       (map_err
          (write_qfl [(0, 1) \<mapsto> 0, (1, 2) \<mapsto> 1, (2, 0) \<mapsto> 2] [1, 1, q3]
             [sqrt (x1\<^sup>2 + y1\<^sup>2), sqrt ((x2 - x1)\<^sup>2 + (y2 - y1)\<^sup>2), q3 * sqrt (x2\<^sup>2 + y2\<^sup>2)]
             [sqrt (x1\<^sup>2 + y1\<^sup>2), sqrt ((x2 - x1)\<^sup>2 + (y2 - y1)\<^sup>2), sqrt (x2\<^sup>2 + y2\<^sup>2)])
          (edges (tri_form x1 y1 x2 y2 q3 e3)))
       (\<lambda>es'. Inr ((tri_form x1 y1 x2 y2 q3 e3)\<lparr>edges := es'\<rparr>))"
proof -
  let ?d = "tri_form x1 y1 x2 y2 q3 e3"
  let ?C = "[[- 1, 1, 0], [0, - 1, 1], [1, 0, - 1 :: real]]"
  have C: "connectivity_matrix [(0, 1), (1, 2), (2, 0)] = Inr ?C"
    by (rule tri_connectivity)
  let ?free = "complement_indices so 3 [[]]"
  have "i < length (transpose ?C)" if "i \<in> set ?free" for i
    using complement_indices_less [OF that] by simp
  then have "\<forall>i \<in> set ?free. i < length (transpose ?C)" by blast
  then have rows: "take_rows (transpose ?C) ?free = Inr (map ((!) (transpose ?C)) ?free)"
    by (rule take_rows_ok)
  have "equilibrium_matrix ?C (xy_of ?d) ?free \<noteq> Inl e" for e
    unfolding equilibrium_matrix_def tri_uv rows by simp
  then obtain E where E: "equilibrium_matrix ?C (xy_of ?d) ?free = Inr E"
    by (cases "equilibrium_matrix ?C (xy_of ?d) ?free") auto
  from equilibrium_matrix_shape [OF C E]
  have "\<forall>row \<in> set E. length row = 3" by simp
  then have w: "list_all (\<lambda>row. list_all (\<lambda>j. j < length row) [0, 1, 2]) E"
    by (auto simp: list_all_iff)
  have q0: "q_of ?d = [1, 1, q3]"
    by (simp add: q_of_def tri_form_def edg_def)
  have upd: "update_q_from_qind E [1, 1, q3] [] [0, 1, 2] = Inr [1, 1, q3]"
    by (rule update_q_no_dependent) (simp, rule w)
  have ind: "map_err (lookup [(0::nat, 1::nat) \<mapsto> 0::nat, (1, 2) \<mapsto> 1, (2, 0) \<mapsto> 2])
               [(0, 1), (1, 2), (2, 0)] = Inr [0, 1, 2]"
    by (simp add: lookup_def)
  have dep: "complement_indices so 3 [[0, 1, 2]] = []"
    by (simp add: complement_indices_def three)
  have cnt: "number_of_vertices ?d = 3" "number_of_edges ?d = 3"
    by (simp_all add: number_of_vertices_def number_of_edges_def tri_form_def)
  have l: "normrow [(x1, y1), (x2 - x1, y2 - y1), (- x2, - y2)]
             = [sqrt (x1\<^sup>2 + y1\<^sup>2), sqrt ((x2 - x1)\<^sup>2 + (y2 - y1)\<^sup>2), sqrt (x2\<^sup>2 + y2\<^sup>2)]"
    by (simp add: normrow_def length_vector_xy_def)
  have f: "broadcast2 (*) [1, 1, q3]
             [sqrt (x1\<^sup>2 + y1\<^sup>2), sqrt ((x2 - x1)\<^sup>2 + (y2 - y1)\<^sup>2), sqrt (x2\<^sup>2 + y2\<^sup>2)]
           = Inr [sqrt (x1\<^sup>2 + y1\<^sup>2), sqrt ((x2 - x1)\<^sup>2 + (y2 - y1)\<^sup>2), q3 * sqrt (x2\<^sup>2 + y2\<^sup>2)]"
    by (simp add: broadcast2_def)
  show ?thesis
    unfolding form_update_q_from_qind_with_def Let_def
      tri_key_index tri_uv_index tri_leaves tri_ind_keys tri_edge_indices cnt q0
    by (simp only: ind dep C E upd tri_uv l f bind_err_Inr map_err.simps(1))
qed

lemma hinged_update_q:
  "form_update_q_from_qind_with so update_q_from_qind hinged =
     Inr (hinged\<lparr>edges := [(edg 0 1 1 True True)\<lparr>attr_f := 3, attr_l := 3\<rparr>,
                           (edg 1 2 1 True True)\<lparr>attr_f := 5, attr_l := 5\<rparr>,
                           edg 2 0 5 False True]\<rparr>)"
proof -
  have "sqrt 9 = sqrt (3\<^sup>2)" "sqrt 25 = sqrt (5\<^sup>2)" by simp_all
  then have s: "sqrt 9 = 3" "sqrt 25 = 5" by simp_all
  show ?thesis
    unfolding hinged_def tri_update_q_run
    by (simp add: tri_form_def edg_def write_qfl_def edge_key_def lookup_def nth_err_def s)
qed

section \<open>Pivots, and the frame of the edge loop\<close>




lemma write_qfl_frame:
  assumes "write_qfl uvi q f l e = Inr e'"
  shows "(\<not> attr_is_edge e \<longrightarrow> e' = e) \<and> edge_key e' = edge_key e \<and> attr_a e' = attr_a e
         \<and> attr_is_edge e' = attr_is_edge e \<and> attr_is_ind e' = attr_is_ind e"
  using assms
  by (auto simp: write_qfl_def bind_err_eq_Inr edge_key_def split: if_splits)

section \<open>The sign of the force\<close>

lemma nth_err_Inr: "nth_err xs i = Inr x \<longleftrightarrow> i < length xs \<and> x = xs ! i"
  by (auto simp: nth_err_def)

lemma lookup_Inr: "lookup m k = Inr v \<longleftrightarrow> m k = Some v"
  by (simp add: lookup_def split: option.splits)

lemma normrow_nth: "j < length uv \<Longrightarrow> normrow uv ! j = length_vector_xy (uv ! j)"
  by (simp add: normrow_def)

lemma length_normrow: "length (normrow uv) = length uv"
  by (simp add: normrow_def)

lemma broadcast2_nth:
  assumes "broadcast2 h xs ys = Inr zs" and "j < length xs" and "j < length ys"
  shows "zs ! j = h (xs ! j) (ys ! j)"
proof -
  consider "length xs = length ys" | "length xs \<noteq> length ys" "length xs = 1"
    | "length xs \<noteq> length ys" "length xs \<noteq> 1" "length ys = 1"
    using assms(1) by (auto simp: broadcast2_def split: if_splits)
  then show ?thesis
  proof cases
    case 1
    with assms(1) have "zs = map2 h xs ys" by (simp add: broadcast2_def)
    with 1 assms(2,3) show ?thesis by simp
  next
    case 2
    with assms(2) have j: "j = 0" by simp
    from 2 assms(1) have "zs = map (h (hd xs)) ys" by (simp add: broadcast2_def)
    with j assms(2,3) show ?thesis by (simp add: hd_conv_nth)
  next
    case 3
    with assms(3) have j: "j = 0" by simp
    from 3 assms(1) have "zs = map (\<lambda>x. h x (hd ys)) xs" by (simp add: broadcast2_def)
    with j assms(2,3) show ?thesis by (simp add: hd_conv_nth)
  qed
qed

lemma length_vector_xy_nonneg: "0 \<le> length_vector_xy u"
  by (simp add: length_vector_xy_def)

lemma acute_angle_lengths:
  assumes "angle_vectors_xy u v < 90"
  shows "0 < length_vector_xy u \<and> 0 < length_vector_xy v"
proof -
  let ?c = "(fst u * fst v + snd u * snd v) / (length_vector_xy u * length_vector_xy v)"
  let ?y = "max (min ?c 1) (- 1)"
  have y: "\<bar>?y\<bar> \<le> 1" by (simp add: abs_le_iff)
  from assms have "arccos ?y * 180 / pi < 90"
    by (simp add: angle_vectors_xy_def Let_def)
  then have "arccos ?y * 180 < 90 * pi"
    by (simp add: pos_divide_less_eq)
  then have lt: "arccos ?y < pi / 2" by simp
  have "(arccos ?y < arccos 0) = (0 < ?y)"
    by (rule arccos_less_mono) (use y in simp_all)
  with lt have "0 < ?y" by simp
  then have "0 < ?c" by (simp add: max_def min_def split: if_splits)
  then have "length_vector_xy u * length_vector_xy v \<noteq> 0" by auto
  then show ?thesis
    using length_vector_xy_nonneg [of u] length_vector_xy_nonneg [of v] by auto
qed

lemma write_form_edge_Inr:
  assumes "write_form_edge uv_e l a l' q e = Inr e'"
  shows "\<exists>j. uv_e (edge_key e) = Some j \<and> j < length l \<and> j < length a \<and> j < length l'
             \<and> j < length q
             \<and> e' = e\<lparr>attr_l := l ! j, attr_a := a ! j,
                      attr_f := (if a ! j < 90 then l' ! j else - (l' ! j)),
                      attr_q := (if a ! j < 90 then q ! j else - (q ! j))\<rparr>"
  using assms unfolding write_form_edge_def
  by (auto simp: bind_err_eq_Inr nth_err_Inr lookup_Inr split: if_splits)

lemma bar_update:
  "form_update_from_force so keep_xy bar bar_force 100 =
     Inr (bar\<lparr>edges := [(edg 0 1 1 True True)\<lparr>attr_l := 1, attr_a := 0, attr_f := 2, attr_q := 2\<rparr>]\<rparr>,
          bar_force\<lparr>edges := [(edg 0 1 0 True False)\<lparr>attr_a := 0, attr_l := 2\<rparr>]\<rparr>)"
proof -
  have k: "key_index bar = [0 \<mapsto> 0, 1 \<mapsto> 1]"
    by (auto simp: key_index_def bar_def vtx_def map_add_def fun_eq_iff)
  have u: "uv_index bar = [(0, 1) \<mapsto> 0]"
    by (auto simp: uv_index_def bar_def edg_def edge_key_def map_add_def fun_eq_iff)
  have es: "edge_indices bar = Inr [(0, 1)]"
    unfolding edge_indices_def k by (simp add: bar_def edg_def lookup_def)
  have C: "connectivity_matrix [(0, 1)] = Inr [[- 1, 1]]"
    by (simp add: connectivity_matrix_def)
  have lv: "map_err (lookup [0::nat \<mapsto> 0::nat, 1 \<mapsto> 1]) (leaves bar) = Inr [0, 1]"
    by (simp add: leaves_def neighbors_def bar_def vtx_def edg_def lookup_def)
  have fx: "map_err (lookup [0::nat \<mapsto> 0::nat, 1 \<mapsto> 1]) (fixed_keys bar) = Inr [0]"
    by (simp add: fixed_keys_def bar_def vtx_def lookup_def)
  have fu: "force_uv_index bar_force = Inr ([(0, 1) \<mapsto> 0] ++ (\<lambda>(v, u). [(0, 1) \<mapsto> 0] (u, v)))"
    by (simp add: force_uv_index_def bar_force_def vtx_def)
  have uv: "dot_points [[- 1, 1]] (xy_of bar) = Inr [(1, 0)]"
    by (simp add: dot_points_def xy_of_def bar_def vtx_def inner_prod_def)
  have uv': "dot_points [[- 1, 1]] (xy_of bar_force) = Inr [(2, 0)]"
    by (simp add: dot_points_def xy_of_def bar_force_def vtx_def inner_prod_def)
  have l: "normrow [(1, 0)] = [1]" "normrow [(2, 0)] = [2]"
    by (simp_all add: normrow_def length_vector_xy_def)
  have an: "angle_vectors_xy (1, 0) (2, 0) = 0"
    by (simp add: angle_vectors_xy_def length_vector_xy_def)
  have a: "map_err (\<lambda>i. bind_err (nth_err [(1, 0)] i) (\<lambda>u.
                          bind_err (nth_err [(2, 0)] i) (\<lambda>u'.
                          Inr (angle_vectors_xy u u'))))
             [0..<length [(0::nat, 1::nat)]] = Inr [0]"
    by (simp add: nth_err_def an)
  have q: "broadcast2 (/) [2] [1] = Inr [2]"
    by (simp add: broadcast2_def)
  have oe: "ordered_edges bar_force = [(0, 1)]"
    by (simp add: bar_force_def)
  have vs: "map_err (write_xy [0 \<mapsto> 0, 1 \<mapsto> 1] (xy_of bar)) (vertices bar) = Inr (vertices bar)"
    by (simp add: write_xy_def xy_of_def bar_def vtx_def lookup_def nth_err_def)
  have fe: "map_err (write_form_edge [(0, 1) \<mapsto> 0] [1] [0] [2] [2]) (edges bar)
              = Inr [(edg 0 1 1 True True)\<lparr>attr_l := 1, attr_a := 0, attr_f := 2, attr_q := 2\<rparr>]"
    by (simp add: write_form_edge_def bar_def edg_def edge_key_def lookup_def nth_err_def)
  have ge: "map_err (write_force_edge ([(0, 1) \<mapsto> 0] ++ (\<lambda>(v, u). [(0, 1) \<mapsto> 0] (u, v))) [0] [2])
              (edges bar_force) = Inr [(edg 0 1 0 True False)\<lparr>attr_a := 0, attr_l := 2\<rparr>]"
    by (simp add: write_force_edge_def bar_force_def edg_def edge_key_def lookup_def nth_err_def
        map_add_def)
  have same: "bar\<lparr>vertices := vertices bar, edges := es'\<rparr> = bar\<lparr>edges := es'\<rparr>" for es'
    by simp
  show ?thesis
    unfolding form_update_from_force_def Let_def keep_xy_def
    by (simp only: es C lv fx fu oe uv uv' l a q k u vs fe ge bind_err_Inr same)
qed

section \<open>Errors of the force update\<close>




















section \<open>The reduced linear system\<close>

lemma scatter_props:
  assumes "distinct idx" and "\<forall>i \<in> set idx. i < length x" and "length vals = length idx"
  shows "length (scatter x idx vals) = length x
         \<and> (\<forall>k < length idx. scatter x idx vals ! (idx ! k) = vals ! k)
         \<and> (\<forall>i. i \<notin> set idx \<longrightarrow> scatter x idx vals ! i = x ! i)"
  using assms
proof (induction x idx vals rule: scatter.induct)
  case (1 x i idx v vals)
  have IH: "length (scatter (x[i := v]) idx vals) = length (x[i := v])
         \<and> (\<forall>k < length idx. scatter (x[i := v]) idx vals ! (idx ! k) = vals ! k)
         \<and> (\<forall>j. j \<notin> set idx \<longrightarrow> scatter (x[i := v]) idx vals ! j = (x[i := v]) ! j)"
    using "1.prems" by (intro "1.IH") auto
  have i: "i \<notin> set idx" "i < length x" using "1.prems" by auto
  show ?case
  proof (intro conjI allI impI)
    show "length (scatter x (i # idx) (v # vals)) = length x" using IH by simp
  next
    fix k assume "k < length (i # idx)"
    then show "scatter x (i # idx) (v # vals) ! ((i # idx) ! k) = (v # vals) ! k"
      using IH i by (cases k) auto
  next
    fix j assume "j \<notin> set (i # idx)"
    then show "scatter x (i # idx) (v # vals) ! j = x ! j"
      using IH by auto
  qed
qed simp_all

lemma dict_enum_mem: "dict_enum n ks k = Some j \<Longrightarrow> k \<in> set ks"
  by (induction ks arbitrary: n) (auto simp: map_add_def split: option.splits if_splits)

lemma dict_enum_distinct:
  "distinct ks \<Longrightarrow> i < length ks \<Longrightarrow> dict_enum n ks (ks ! i) = Some (n + i)"
proof (induction ks arbitrary: n i)
  case Nil
  then show ?case by simp
next
  case (Cons k ks)
  show ?case
  proof (cases i)
    case 0
    have "dict_enum (Suc n) ks k = None"
    proof (cases "dict_enum (Suc n) ks k")
      case (Some j)
      from dict_enum_mem [OF Some] Cons.prems show ?thesis by simp
    qed simp
    with 0 show ?thesis by (simp add: map_add_def)
  next
    case (Suc i')
    with Cons.prems Cons.IH [of i' "Suc n"] show ?thesis
      by (simp add: map_add_def)
  qed
qed


lemma inner_prod_sum:
  assumes "length ys \<le> length r"
  shows "inner_prod r ys = (\<Sum>j<length ys. r ! j * ys ! j)"
proof -
  have "map2 (*) r ys = map (\<lambda>j. r ! j * ys ! j) [0..<length ys]"
    using assms by (intro nth_equalityI) auto
  then have "inner_prod r ys = sum_list (map (\<lambda>j. r ! j * ys ! j) [0..<length ys])"
    by (simp add: inner_prod_def)
  also have "\<dots> = (\<Sum>j \<in> set [0..<length ys]. r ! j * ys ! j)"
    by (rule interv_sum_list_conv_sum_set_nat)
  finally show ?thesis by (simp add: lessThan_atLeast0)
qed

lemma complement_single:
  "distinct (complement_indices so n [[a]])" "set (complement_indices so n [[a]]) = {..<n} - {a}"
  by (auto simp: complement_indices_def)

lemma sum_split_known:
  fixes h :: "nat \<Rightarrow> real"
  assumes "a < n"
  shows "(\<Sum>j<n. h j) = h a + sum_list (map h (complement_indices so n [[a]]))"
proof -
  have "sum_list (map h (complement_indices so n [[a]])) = sum h ({..<n} - {a})"
    using complement_single [of so n a] by (simp add: sum_list_distinct_conv_sum_set)
  moreover have "(\<Sum>j<n. h j) = h a + sum h ({..<n} - {a})"
    using assms by (intro sum.remove) auto
  ultimately show ?thesis by simp
qed

lemma inner_prod_map:
  "inner_prod (map f idx) (map g idx) = sum_list (map (\<lambda>j. f j * g j) idx)"
  by (induction idx) (simp_all add: inner_prod_def)

lemma reduced_system_Inr:
  assumes "reduced_system so A b x [a] = Inr (A11, b')"
  defines "unknown \<equiv> complement_indices so (length x) [[a]]"
  shows "a < length x"
    and "length A11 = length unknown" and "length b' = length unknown"
    and "\<forall>i \<in> set unknown. i < length A \<and> i < length b"
    and "\<forall>k < length unknown.
           A11 ! k = map ((!) (A ! (unknown ! k))) unknown
         \<and> length x \<le> length (A ! (unknown ! k))
         \<and> b' ! k = (fst (b ! (unknown ! k)) - A ! (unknown ! k) ! a * fst (x ! a),
                      snd (b ! (unknown ! k)) - A ! (unknown ! k) ! a * snd (x ! a))"
proof -
  from assms(1) obtain Au A12 bu xk c where
    Au: "take_rows A unknown = Inr Au"
    and A11: "map_err (\<lambda>r. take_rows r unknown) Au = Inr A11"
    and A12: "map_err (\<lambda>r. take_rows r [a]) Au = Inr A12"
    and bu: "take_rows b unknown = Inr bu"
    and xk: "take_rows x [a] = Inr xk"
    and c: "dot_points A12 xk = Inr c"
    and b': "b' = map2 (\<lambda>(bx, by) (cx, cy). (bx - cx, by - cy)) bu c"
    unfolding reduced_system_def Let_def unknown_def
    by (auto simp: bind_err_eq_Inr)
  from take_rows_Inr [OF xk] show a: "a < length x" by simp
  from take_rows_Inr [OF xk] have xk': "xk = [x ! a]" by simp
  note Au' = take_rows_Inr [OF Au]
  note bu' = take_rows_Inr [OF bu]
  note A11' = map_err_Inr [OF A11]
  note A12' = map_err_Inr [OF A12]
  note c' = dot_points_Inr [OF c]
  from Au' have lAu: "length Au = length unknown" by simp
  with A11' show l11: "length A11 = length unknown" by simp
  from bu' have lbu: "length bu = length unknown" by simp
  from c' A12' lAu have lc: "length c = length unknown" by simp
  from b' lbu lc show "length b' = length unknown" by simp
  from Au' bu' show "\<forall>i \<in> set unknown. i < length A \<and> i < length b" by auto
  show "\<forall>k < length unknown.
           A11 ! k = map ((!) (A ! (unknown ! k))) unknown
         \<and> length x \<le> length (A ! (unknown ! k))
         \<and> b' ! k = (fst (b ! (unknown ! k)) - A ! (unknown ! k) ! a * fst (x ! a),
                      snd (b ! (unknown ! k)) - A ! (unknown ! k) ! a * snd (x ! a))"
  proof (intro allI impI)
    fix k assume k: "k < length unknown"
    let ?r = "A ! (unknown ! k)"
    from Au' k have Auk: "Au ! k = ?r" by simp
    from A11' k lAu Auk have t11: "take_rows ?r unknown = Inr (A11 ! k)" by auto
    from A12' k lAu Auk have t12: "take_rows ?r [a] = Inr (A12 ! k)" by auto
    from take_rows_Inr [OF t11] have r11: "A11 ! k = map ((!) ?r) unknown"
      and u: "\<forall>j \<in> set unknown. j < length ?r" by auto
    from take_rows_Inr [OF t12] have r12: "A12 ! k = [?r ! a]" and ar: "a < length ?r" by auto
    have "j < length ?r" if "j < length x" for j
      using that u ar by (cases "j = a") (auto simp: unknown_def complement_indices_def)
    then have wide: "length x \<le> length ?r"
      by (meson not_less order_refl)
    from c' k lc A12' lAu have "c ! k = (inner_prod (A12 ! k) (map fst xk), inner_prod (A12 ! k) (map snd xk))"
      by simp
    with r12 xk' have ck: "c ! k = (?r ! a * fst (x ! a), ?r ! a * snd (x ! a))"
      by (simp add: inner_prod_def)
    from bu' k have buk: "bu ! k = b ! (unknown ! k)" by simp
    from b' k lbu lc ck buk
    have "b' ! k = (fst (b ! (unknown ! k)) - ?r ! a * fst (x ! a),
                    snd (b ! (unknown ! k)) - ?r ! a * snd (x ! a))"
      by (simp add: case_prod_beta)
    with r11 wide show "A11 ! k = map ((!) ?r) unknown \<and> length x \<le> length ?r
         \<and> b' ! k = (fst (b ! (unknown ! k)) - ?r ! a * fst (x ! a),
                      snd (b ! (unknown ! k)) - ?r ! a * snd (x ! a))"
      by simp
  qed
qed

lemma solved_rows:
  assumes red: "reduced_system so A b x [a] = Inr (A11, b')"
    and sol: "dot_points A11 sol = Inr b'"
    and len: "length sol = length (complement_indices so (length x) [[a]])"
    and i: "i < length x" "i \<noteq> a"
  shows "dot_points [take (length x) (A ! i)] (scatter x (complement_indices so (length x) [[a]]) sol)
           = Inr [b ! i]"
proof -
  define unknown where "unknown = complement_indices so (length x) [[a]]"
  define x' where "x' = scatter x unknown sol"
  note R = reduced_system_Inr [OF red, folded unknown_def]
  have d: "distinct unknown" and su: "set unknown = {..<length x} - {a}"
    unfolding unknown_def by (rule complement_single)+
  from su have bound: "\<forall>j \<in> set unknown. j < length x" by auto
  from scatter_props [OF d bound len [folded unknown_def]]
  have lx': "length x' = length x"
    and xs: "\<forall>k < length unknown. x' ! (unknown ! k) = sol ! k"
    and xa: "x' ! a = x ! a"
    unfolding x'_def using su by auto
  from i su have "i \<in> set unknown" by simp
  then obtain k where k: "k < length unknown" and ik: "unknown ! k = i"
    by (auto simp: in_set_conv_nth)
  let ?r = "A ! i"
  from R(5) k ik have r11: "A11 ! k = map ((!) ?r) unknown"
    and wide: "length x \<le> length ?r"
    and bk: "b' ! k = (fst (b ! i) - ?r ! a * fst (x ! a), snd (b ! i) - ?r ! a * snd (x ! a))"
    by auto
  have sol_eq: "sol = map ((!) x') unknown"
    using xs len by (intro nth_equalityI) (auto simp: unknown_def)
  from dot_points_Inr [OF sol] k R(2)
  have "b' ! k = (inner_prod (A11 ! k) (map fst sol), inner_prod (A11 ! k) (map snd sol))"
    by simp
  with r11 sol_eq
  have "b' ! k = (inner_prod (map ((!) ?r) unknown) (map (\<lambda>j. fst (x' ! j)) unknown),
                  inner_prod (map ((!) ?r) unknown) (map (\<lambda>j. snd (x' ! j)) unknown))"
    by (simp add: comp_def)
  with bk have s1: "sum_list (map (\<lambda>j. ?r ! j * fst (x' ! j)) unknown)
                      = fst (b ! i) - ?r ! a * fst (x ! a)"
    and s2: "sum_list (map (\<lambda>j. ?r ! j * snd (x' ! j)) unknown)
                      = snd (b ! i) - ?r ! a * snd (x ! a)"
    by (simp_all add: inner_prod_map)
  have lt: "length (map fst x') \<le> length (take (length x) ?r)"
    "length (map snd x') \<le> length (take (length x) ?r)"
    using wide lx' by simp_all
  have f: "inner_prod (take (length x) ?r) (map fst x') = fst (b ! i)"
  proof -
    have "inner_prod (take (length x) ?r) (map fst x') = (\<Sum>j<length x. ?r ! j * fst (x' ! j))"
      using inner_prod_sum [OF lt(1)] lx' by simp
    also have "\<dots> = ?r ! a * fst (x' ! a) + sum_list (map (\<lambda>j. ?r ! j * fst (x' ! j)) unknown)"
      unfolding unknown_def by (rule sum_split_known) (rule R(1))
    finally show ?thesis using s1 xa by simp
  qed
  have g: "inner_prod (take (length x) ?r) (map snd x') = snd (b ! i)"
  proof -
    have "inner_prod (take (length x) ?r) (map snd x') = (\<Sum>j<length x. ?r ! j * snd (x' ! j))"
      using inner_prod_sum [OF lt(2)] lx' by simp
    also have "\<dots> = ?r ! a * snd (x' ! a) + sum_list (map (\<lambda>j. ?r ! j * snd (x' ! j)) unknown)"
      unfolding unknown_def by (rule sum_split_known) (rule R(1))
    finally show ?thesis using s2 xa by simp
  qed
  have "dot_points [take (length x) ?r] x' = Inr [b ! i]"
    using wide lx' f g by (simp add: dot_points_def)
  then show ?thesis by (simp add: x'_def unknown_def)
qed

lemma write_xy_distinct:
  assumes "distinct (map vkey (vertices d))" and "length xy = length (vertices d)"
  shows "map_err (write_xy (key_index d) xy) (vertices d)
           = Inr (map2 (\<lambda>v (x, y). v\<lparr>attr_x := x, attr_y := y\<rparr>) (vertices d) xy)"
proof -
  have "map_err (write_xy (dict_enum n (map vkey vs)) xy) (drop m vs)
          = Inr (map2 (\<lambda>v (x, y). v\<lparr>attr_x := x, attr_y := y\<rparr>) (drop m vs)
                   (drop (n + m) xy))"
    if "distinct (map vkey vs)" and "length xy = n + length vs"
    for n m and vs :: "vertex list"
    using that
  proof (induction "length vs - m" arbitrary: m)
    case 0
    then show ?case by simp
  next
    case (Suc l)
    then have m: "m < length vs" by simp
    then have dr: "drop m vs = vs ! m # drop (Suc m) vs"
      by (simp add: Cons_nth_drop_Suc)
    from m Suc.prems have dx: "drop (n + m) xy = xy ! (n + m) # drop (Suc (n + m)) xy"
      by (simp add: Cons_nth_drop_Suc)
    have key: "dict_enum n (map vkey vs) (vkey (vs ! m)) = Some (n + m)"
      using dict_enum_distinct [OF Suc.prems(1), of m n] m by simp
    have w: "write_xy (dict_enum n (map vkey vs)) xy (vs ! m)
               = Inr ((\<lambda>v (x, y). v\<lparr>attr_x := x, attr_y := y\<rparr>) (vs ! m) (xy ! (n + m)))"
      using key m Suc.prems(2)
      by (simp add: write_xy_def lookup_def nth_err_def split: prod.splits)
    have IH: "map_err (write_xy (dict_enum n (map vkey vs)) xy) (drop (Suc m) vs)
          = Inr (map2 (\<lambda>v (x, y). v\<lparr>attr_x := x, attr_y := y\<rparr>) (drop (Suc m) vs)
                   (drop (n + Suc m) xy))"
      using Suc.hyps(2) Suc.prems by (intro Suc.hyps(1)) auto
    show ?case
      unfolding dr dx using w IH by simp
  qed
  from this [of "vertices d" 0 0] assms show ?thesis
    by (simp add: key_index_def)
qed

lemma xy_of_written:
  "length xy = length vs \<Longrightarrow>
     map (\<lambda>v. (attr_x v, attr_y v)) (map2 (\<lambda>v (x, y). v\<lparr>attr_x := x, attr_y := y\<rparr>) vs xy) = xy"
  by (intro nth_equalityI) (auto simp: case_prod_beta)

lemma keys_written:
  "length xy = length vs \<Longrightarrow>
     map vkey (map2 (\<lambda>v (x, y). v\<lparr>attr_x := x, attr_y := y\<rparr>) vs xy) = map vkey vs"
  by (intro nth_equalityI) (auto simp: case_prod_beta)

lemma chain_update:
  "force_update_from_form ascending_order gauss_spsolve chain_force path_form
     = Inr (chain_force\<lparr>vertices := [vtx 0 0 0 False, vtx 1 1 0 False, vtx 2 2 0 False]\<rparr>)"
  by code_simp

lemma chain_keys: "distinct (map vkey (vertices chain_force))"
  by (simp add: chain_force_def vtx_def)

lemma right_angle: "angle_vectors_xy (1, 0) (0, 2) = 90"
  by (simp add: angle_vectors_xy_def length_vector_xy_def)

lemma bar_update_up:
  "form_update_from_force so keep_xy bar bar_force_up 100 =
     Inr (bar\<lparr>edges := [(edg 0 1 1 True True)\<lparr>attr_l := 1, attr_a := 90, attr_f := - 2,
                                               attr_q := - 2\<rparr>]\<rparr>,
          bar_force_up\<lparr>edges := [(edg 0 1 0 True False)\<lparr>attr_a := 90, attr_l := 2\<rparr>]\<rparr>)"
proof -
  have k: "key_index bar = [0 \<mapsto> 0, 1 \<mapsto> 1]"
    by (auto simp: key_index_def bar_def vtx_def map_add_def fun_eq_iff)
  have u: "uv_index bar = [(0, 1) \<mapsto> 0]"
    by (auto simp: uv_index_def bar_def edg_def edge_key_def map_add_def fun_eq_iff)
  have es: "edge_indices bar = Inr [(0, 1)]"
    unfolding edge_indices_def k by (simp add: bar_def edg_def lookup_def)
  have C: "connectivity_matrix [(0, 1)] = Inr [[- 1, 1]]"
    by (simp add: connectivity_matrix_def)
  have lv: "map_err (lookup [0::nat \<mapsto> 0::nat, 1 \<mapsto> 1]) (leaves bar) = Inr [0, 1]"
    by (simp add: leaves_def neighbors_def bar_def vtx_def edg_def lookup_def)
  have fx: "map_err (lookup [0::nat \<mapsto> 0::nat, 1 \<mapsto> 1]) (fixed_keys bar) = Inr [0]"
    by (simp add: fixed_keys_def bar_def vtx_def lookup_def)
  have fu: "force_uv_index bar_force_up
              = Inr ([(0, 1) \<mapsto> 0] ++ (\<lambda>(v, u). [(0, 1) \<mapsto> 0] (u, v)))"
    by (simp add: force_uv_index_def bar_force_up_def vtx_def)
  have uv: "dot_points [[- 1, 1]] (xy_of bar) = Inr [(1, 0)]"
    by (simp add: dot_points_def xy_of_def bar_def vtx_def inner_prod_def)
  have uv': "dot_points [[- 1, 1]] (xy_of bar_force_up) = Inr [(0, 2)]"
    by (simp add: dot_points_def xy_of_def bar_force_up_def vtx_def inner_prod_def)
  have l: "normrow [(1, 0)] = [1]" "normrow [(0, 2)] = [2]"
    by (simp_all add: normrow_def length_vector_xy_def)
  have a: "map_err (\<lambda>i. bind_err (nth_err [(1, 0)] i) (\<lambda>u.
                          bind_err (nth_err [(0, 2)] i) (\<lambda>u'.
                          Inr (angle_vectors_xy u u'))))
             [0..<length [(0::nat, 1::nat)]] = Inr [90]"
    by (simp add: nth_err_def right_angle)
  have q: "broadcast2 (/) [2] [1] = Inr [2]"
    by (simp add: broadcast2_def)
  have oe: "ordered_edges bar_force_up = [(0, 1)]"
    by (simp add: bar_force_up_def)
  have vs: "map_err (write_xy [0 \<mapsto> 0, 1 \<mapsto> 1] (xy_of bar)) (vertices bar) = Inr (vertices bar)"
    by (simp add: write_xy_def xy_of_def bar_def vtx_def lookup_def nth_err_def)
  have fe: "map_err (write_form_edge [(0, 1) \<mapsto> 0] [1] [90] [2] [2]) (edges bar)
              = Inr [(edg 0 1 1 True True)\<lparr>attr_l := 1, attr_a := 90, attr_f := - 2,
                                            attr_q := - 2\<rparr>]"
    by (simp add: write_form_edge_def bar_def edg_def edge_key_def lookup_def nth_err_def)
  have ge: "map_err (write_force_edge ([(0, 1) \<mapsto> 0] ++ (\<lambda>(v, u). [(0, 1) \<mapsto> 0] (u, v))) [90] [2])
              (edges bar_force_up) = Inr [(edg 0 1 0 True False)\<lparr>attr_a := 90, attr_l := 2\<rparr>]"
    by (simp add: write_force_edge_def bar_force_up_def edg_def edge_key_def lookup_def
        nth_err_def map_add_def)
  have same: "bar\<lparr>vertices := vertices bar, edges := es'\<rparr> = bar\<lparr>edges := es'\<rparr>" for es'
    by simp
  show ?thesis
    unfolding form_update_from_force_def Let_def keep_xy_def
    by (simp only: es C lv fx fu oe uv uv' l a q k u vs fe ge bind_err_Inr same)
qed

section \<open>Claims\<close>




text \<open>
  C2. When \<open>form_update_from_force\<close> returns, every edge of the form diagram carries the
  angle \<open>a\<close> between its vector in the new geometry and the vector of its reciprocal force
  edge, and its new length \<open>l\<close>. If \<open>a < 90\<close>, then \<open>f\<close> is the length of the force edge and
  \<open>q\<close> is that length divided by \<open>l\<close>, both positive; otherwise, also at exactly 90, \<open>f\<close> and
  \<open>q\<close> are these values negated.
\<close>

theorem force_sign_by_angle:
  assumes run: "form_update_from_force so core form force kmax = Inr (form', force')"
    and i: "i < length (edges form')"
  shows "\<exists>es C C' xy uv uv' j.
           edge_indices form = Inr es \<and> connectivity_matrix es = Inr C
         \<and> connectivity_matrix (ordered_edges force) = Inr C'
         \<and> map_err (write_xy (key_index form) xy) (vertices form) = Inr (vertices form')
         \<and> dot_points C xy = Inr uv
         \<and> dot_points C' (xy_of force) = Inr uv'
         \<and> uv_index form (edge_key (edges form ! i)) = Some j
         \<and> j < length uv \<and> j < length uv'
         \<and> edge_key (edges form' ! i) = edge_key (edges form ! i)
         \<and> attr_a (edges form' ! i) = angle_vectors_xy (uv ! j) (uv' ! j)
         \<and> attr_l (edges form' ! i) = length_vector_xy (uv ! j)
         \<and> (attr_a (edges form' ! i) < 90 \<longrightarrow>
               attr_f (edges form' ! i) = length_vector_xy (uv' ! j)
             \<and> attr_q (edges form' ! i) = length_vector_xy (uv' ! j) / length_vector_xy (uv ! j)
             \<and> 0 < attr_f (edges form' ! i) \<and> 0 < attr_q (edges form' ! i))
         \<and> (\<not> attr_a (edges form' ! i) < 90 \<longrightarrow>
               attr_f (edges form' ! i) = - length_vector_xy (uv' ! j)
             \<and> attr_q (edges form' ! i)
                 = - (length_vector_xy (uv' ! j) / length_vector_xy (uv ! j))
             \<and> attr_f (edges form' ! i) \<le> 0 \<and> attr_q (edges form' ! i) \<le> 0)"
proof -
  from run obtain es C C' xy uv uv' a q vs form_edges where
    es: "edge_indices form = Inr es"
    and C: "connectivity_matrix es = Inr C"
    and C': "connectivity_matrix (ordered_edges force) = Inr C'"
    and uv: "dot_points C xy = Inr uv"
    and uv': "dot_points C' (xy_of force) = Inr uv'"
    and a: "map_err (\<lambda>i. bind_err (nth_err uv i) (\<lambda>u.
                           bind_err (nth_err uv' i) (\<lambda>u'.
                           Inr (angle_vectors_xy u u'))))
              [0..<length es] = Inr a"
    and q: "broadcast2 (/) (normrow uv') (normrow uv) = Inr q"
    and vs: "map_err (write_xy (key_index form) xy) (vertices form) = Inr vs"
    and fe: "map_err (write_form_edge (uv_index form) (normrow uv) a (normrow uv') q) (edges form)
               = Inr form_edges"
    and form': "form' = form\<lparr>vertices := vs, edges := form_edges\<rparr>"
    unfolding form_update_from_force_def Let_def
    by (auto simp: bind_err_eq_Inr)
  from map_err_Inr [OF fe] i form'
  have len: "length form_edges = length (edges form)"
    and w: "write_form_edge (uv_index form) (normrow uv) a (normrow uv') q (edges form ! i)
              = Inr (edges form' ! i)"
    by auto
  from write_form_edge_Inr [OF w] obtain j where
    j: "uv_index form (edge_key (edges form ! i)) = Some j"
    and jl: "j < length uv" and ja: "j < length a" and jl': "j < length uv'"
    and e': "edges form' ! i = (edges form ! i)\<lparr>attr_l := normrow uv ! j, attr_a := a ! j,
                attr_f := (if a ! j < 90 then normrow uv' ! j else - (normrow uv' ! j)),
                attr_q := (if a ! j < 90 then q ! j else - (q ! j))\<rparr>"
    by (auto simp: length_normrow)
  from map_err_Inr [OF a] ja
  have "bind_err (nth_err uv j) (\<lambda>u. bind_err (nth_err uv' j) (\<lambda>u'.
          Inr (angle_vectors_xy u u'))) = Inr (a ! j)"
    by auto
  then have aj: "a ! j = angle_vectors_xy (uv ! j) (uv' ! j)"
    by (auto simp: bind_err_eq_Inr nth_err_Inr)
  have qj: "q ! j = length_vector_xy (uv' ! j) / length_vector_xy (uv ! j)"
    using broadcast2_nth [OF q, of j] jl jl' by (simp add: length_normrow normrow_nth)
  have pos: "0 < length_vector_xy (uv ! j) \<and> 0 < length_vector_xy (uv' ! j)"
    if "a ! j < 90"
    using that acute_angle_lengths [of "uv ! j" "uv' ! j"] aj by simp
  have nonneg: "0 \<le> length_vector_xy (uv ! j)" "0 \<le> length_vector_xy (uv' ! j)"
    by (rule length_vector_xy_nonneg)+
  have props: "edge_key (edges form' ! i) = edge_key (edges form ! i)
         \<and> attr_a (edges form' ! i) = angle_vectors_xy (uv ! j) (uv' ! j)
         \<and> attr_l (edges form' ! i) = length_vector_xy (uv ! j)
         \<and> (attr_a (edges form' ! i) < 90 \<longrightarrow>
               attr_f (edges form' ! i) = length_vector_xy (uv' ! j)
             \<and> attr_q (edges form' ! i) = length_vector_xy (uv' ! j) / length_vector_xy (uv ! j)
             \<and> 0 < attr_f (edges form' ! i) \<and> 0 < attr_q (edges form' ! i))
         \<and> (\<not> attr_a (edges form' ! i) < 90 \<longrightarrow>
               attr_f (edges form' ! i) = - length_vector_xy (uv' ! j)
             \<and> attr_q (edges form' ! i)
                 = - (length_vector_xy (uv' ! j) / length_vector_xy (uv ! j))
             \<and> attr_f (edges form' ! i) \<le> 0 \<and> attr_q (edges form' ! i) \<le> 0)"
    using pos nonneg
    by (simp add: e' aj [symmetric] qj jl jl' normrow_nth edge_key_def)
  from vs form' have "map_err (write_xy (key_index form) xy) (vertices form) = Inr (vertices form')"
    by simp
  with es C C' uv uv' j jl jl' props show ?thesis by blast
qed

theorem force_sign_by_angle_witness:
  "form_update_from_force ascending_order keep_xy bar bar_force 100 =
     Inr (bar\<lparr>edges := [(edg 0 1 1 True True)\<lparr>attr_l := 1, attr_a := 0, attr_f := 2, attr_q := 2\<rparr>]\<rparr>,
          bar_force\<lparr>edges := [(edg 0 1 0 True False)\<lparr>attr_a := 0, attr_l := 2\<rparr>]\<rparr>)
   \<and> (\<exists>uv uv' j. j < length uv \<and> j < length uv'
         \<and> angle_vectors_xy (uv ! j) (uv' ! j) = 0
         \<and> length_vector_xy (uv' ! j) = 2)
   \<and> form_update_from_force ascending_order keep_xy bar bar_force_up 100 =
     Inr (bar\<lparr>edges := [(edg 0 1 1 True True)\<lparr>attr_l := 1, attr_a := 90, attr_f := - 2,
                                               attr_q := - 2\<rparr>]\<rparr>,
          bar_force_up\<lparr>edges := [(edg 0 1 0 True False)\<lparr>attr_a := 90, attr_l := 2\<rparr>]\<rparr>)
   \<and> (\<exists>uv uv' j. j < length uv \<and> j < length uv'
         \<and> angle_vectors_xy (uv ! j) (uv' ! j) = 90
         \<and> - length_vector_xy (uv' ! j) = - 2)"
proof -
  note h = bar_update [of ascending_order]
  note h' = bar_update_up [of ascending_order]
  have i: "0 < length (edges (bar\<lparr>edges :=
             [(edg 0 1 1 True True)\<lparr>attr_l := 1, attr_a := 0, attr_f := 2, attr_q := 2\<rparr>]\<rparr>))"
    by simp
  have i': "0 < length (edges (bar\<lparr>edges :=
             [(edg 0 1 1 True True)\<lparr>attr_l := 1, attr_a := 90, attr_f := - 2, attr_q := - 2\<rparr>]\<rparr>))"
    by simp
  from force_sign_by_angle [OF h i] obtain uv uv' j where
    "j < length uv" "j < length uv'"
    "attr_a ((edg 0 1 1 True True)\<lparr>attr_l := 1, attr_a := 0, attr_f := 2, attr_q := 2\<rparr>)
       = angle_vectors_xy (uv ! j) (uv' ! j)"
    "attr_a ((edg 0 1 1 True True)\<lparr>attr_l := 1, attr_a := 0, attr_f := 2, attr_q := 2\<rparr>) < 90 \<longrightarrow>
       attr_f ((edg 0 1 1 True True)\<lparr>attr_l := 1, attr_a := 0, attr_f := 2, attr_q := 2\<rparr>)
         = length_vector_xy (uv' ! j)"
    by (elim exE conjE) simp
  then have acute: "\<exists>uv uv' j. j < length uv \<and> j < length uv'
         \<and> angle_vectors_xy (uv ! j) (uv' ! j) = 0 \<and> length_vector_xy (uv' ! j) = 2"
    by (intro exI [of _ uv] exI [of _ uv'] exI [of _ j]) simp
  from force_sign_by_angle [OF h' i'] obtain uv uv' j where
    "j < length uv" "j < length uv'"
    "attr_a ((edg 0 1 1 True True)\<lparr>attr_l := 1, attr_a := 90, attr_f := - 2, attr_q := - 2\<rparr>)
       = angle_vectors_xy (uv ! j) (uv' ! j)"
    "\<not> attr_a ((edg 0 1 1 True True)\<lparr>attr_l := 1, attr_a := 90, attr_f := - 2, attr_q := - 2\<rparr>) < 90
       \<longrightarrow>
       attr_f ((edg 0 1 1 True True)\<lparr>attr_l := 1, attr_a := 90, attr_f := - 2, attr_q := - 2\<rparr>)
         = - length_vector_xy (uv' ! j)"
    by (elim exE conjE) simp
  then have right: "\<exists>uv uv' j. j < length uv \<and> j < length uv'
         \<and> angle_vectors_xy (uv ! j) (uv' ! j) = 90 \<and> - length_vector_xy (uv' ! j) = - 2"
    by (intro exI [of _ uv] exI [of _ uv'] exI [of _ j]) simp
  from h h' acute right show ?thesis by (intro conjI)
qed

text \<open>
  C3. When \<open>force_update_from_form\<close> returns for a force diagram with distinct vertex keys:
  with \<open>A = _Ct.dot(_C)\<close> and \<open>b = _Ct.dot(Q).dot(uv)\<close>, \<open>Q\<close> the diagonal matrix of the force
  densities of the form diagram and \<open>uv\<close> its edge vectors, the solver is applied once, to
  the system reduced by the anchor (any solver with the same answer on that one system
  gives the same diagram); the anchor keeps its coordinates; the solver's answer is
  written to the other vertices; and when that answer solves the reduced system, every
  row of \<open>A xy = b\<close> other than the anchor's holds for the new coordinates. Keys, edges,
  anchor and edge order of the force diagram are unchanged.
\<close>

theorem force_update_single_solve:
  assumes run: "force_update_from_form so spsolve force form = Inr force'"
    and keys: "distinct (map vkey (vertices force))"
  shows "\<exists>es C uv C' CtQ A b a A11 b' sol.
           edge_indices form = Inr es \<and> connectivity_matrix es = Inr C
         \<and> dot_points C (xy_of form) = Inr uv
         \<and> connectivity_matrix (ordered_edges force) = Inr C'
         \<and> dot (transpose C') C' = Inr A
         \<and> dot_diag (transpose C') (q_of form) = Inr CtQ
         \<and> dot_points CtQ uv = Inr b
         \<and> key_index force (anchor force) = Some a
         \<and> reduced_system so A b (xy_of force) [a] = Inr (A11, b')
         \<and> spsolve A11 b' = Inr sol
         \<and> (\<forall>s. s A11 b' = Inr sol \<longrightarrow> force_update_from_form so s force form = Inr force')
         \<and> map vkey (vertices force') = map vkey (vertices force)
         \<and> edges force' = edges force \<and> anchor force' = anchor force
         \<and> ordered_edges force' = ordered_edges force
         \<and> xy_of force' ! a = xy_of force ! a
         \<and> map ((!) (xy_of force')) (complement_indices so (length (vertices force)) [[a]]) = sol
         \<and> (dot_points A11 sol = Inr b' \<longrightarrow>
              (\<forall>i < length (vertices force). i \<noteq> a \<longrightarrow>
                 dot_points [take (length (vertices force)) (A ! i)] (xy_of force') = Inr [b ! i]))"
proof -
  let ?x = "xy_of force"
  let ?n = "length (vertices force)"
  have n: "length ?x = ?n" by (simp add: xy_of_def)
  from run obtain A b x a xy' vs where
    sys: "force_system force form = Inr (A, b, x, a)"
    and swk: "spsolve_with_known so spsolve A b x [a] = Inr xy'"
    and wr: "map_err (write_xy (key_index force) xy') (vertices force) = Inr vs"
    and force': "force' = force\<lparr>vertices := vs\<rparr>"
    unfolding force_update_from_form_def
    by (auto simp: bind_err_eq_Inr)
  from sys obtain es C uv C' CtQ where
    es: "edge_indices form = Inr es" and C: "connectivity_matrix es = Inr C"
    and uv: "dot_points C (xy_of form) = Inr uv"
    and C': "connectivity_matrix (ordered_edges force) = Inr C'"
    and A: "dot (transpose C') C' = Inr A"
    and CtQ: "dot_diag (transpose C') (q_of form) = Inr CtQ"
    and b: "dot_points CtQ uv = Inr b"
    and a: "key_index force (anchor force) = Some a"
    and x: "x = ?x"
    unfolding force_system_def Let_def
    by (auto simp: bind_err_eq_Inr lookup_Inr)
  define unknown where "unknown = complement_indices so ?n [[a]]"
  from swk x n obtain A11 b' sol where
    red: "reduced_system so A b ?x [a] = Inr (A11, b')"
    and sol: "spsolve A11 b' = Inr sol"
    and len: "length sol = length unknown"
    and xy': "xy' = scatter ?x unknown sol"
    unfolding spsolve_with_known_def Let_def unknown_def
    by (auto simp: bind_err_eq_Inr split: if_splits)
  have d: "distinct unknown" and su: "set unknown = {..<?n} - {a}"
    unfolding unknown_def by (rule complement_single)+
  from su n have bound: "\<forall>j \<in> set unknown. j < length ?x" by auto
  from scatter_props [OF d bound len]
  have lxy': "length xy' = ?n"
    and xs: "\<forall>k < length unknown. xy' ! (unknown ! k) = sol ! k"
    and xa: "xy' ! a = ?x ! a"
    unfolding xy' using su n by auto
  from write_xy_distinct [OF keys lxy'] wr
  have vs: "vs = map2 (\<lambda>v (x, y). v\<lparr>attr_x := x, attr_y := y\<rparr>) (vertices force) xy'"
    by simp
  have xyf: "xy_of force' = xy'"
    unfolding force' vs xy_of_def using xy_of_written [OF lxy'] by simp
  have kf: "map vkey (vertices force') = map vkey (vertices force)"
    unfolding force' vs using keys_written [OF lxy'] by simp
  have single: "\<forall>s. s A11 b' = Inr sol \<longrightarrow> force_update_from_form so s force form = Inr force'"
  proof (intro allI impI)
    fix s :: "matrix \<Rightarrow> points \<Rightarrow> py_error + points"
    assume "s A11 b' = Inr sol"
    then have "spsolve_with_known so s A b ?x [a] = Inr xy'"
      using red len xy' n
      by (simp add: spsolve_with_known_def Let_def unknown_def)
    with sys x wr force' show "force_update_from_form so s force form = Inr force'"
      by (simp add: force_update_from_form_def)
  qed
  have written: "map ((!) (xy_of force')) (complement_indices so ?n [[a]]) = sol"
    unfolding xyf using xs len
    by (intro nth_equalityI) (auto simp: unknown_def)
  have rows: "dot_points A11 sol = Inr b' \<longrightarrow>
              (\<forall>i < ?n. i \<noteq> a \<longrightarrow>
                 dot_points [take ?n (A ! i)] (xy_of force') = Inr [b ! i])"
  proof (intro impI allI)
    fix i assume ok: "dot_points A11 sol = Inr b'" and i: "i < ?n" "i \<noteq> a"
    from solved_rows [OF red ok, of i] len i n
    show "dot_points [take ?n (A ! i)] (xy_of force') = Inr [b ! i]"
      by (simp add: xyf xy' unknown_def)
  qed
  have frame: "edges force' = edges force \<and> anchor force' = anchor force
         \<and> ordered_edges force' = ordered_edges force"
    by (simp add: force')
  from es C uv C' A CtQ b a red sol single kf frame xa written rows
  show ?thesis
    unfolding xyf by blast
qed

theorem force_update_single_solve_witness:
  "force_update_from_form ascending_order gauss_spsolve chain_force path_form
     = Inr (chain_force\<lparr>vertices := [vtx 0 0 0 False, vtx 1 1 0 False, vtx 2 2 0 False]\<rparr>)
   \<and> distinct (map vkey (vertices chain_force))
   \<and> force_system chain_force path_form
       = Inr ([[1, - 1, 0], [- 1, 2, - 1], [0, - 1, 1]], [(- 1, 0), (0, 0), (1, 0)],
              [(0, 0), (3, 0), (7, 7)], 0)
   \<and> reduced_system ascending_order [[1, - 1, 0], [- 1, 2, - 1], [0, - 1, 1]] [(- 1, 0), (0, 0), (1, 0)]
         [(0, 0), (3, 0), (7, 7)] [0]
       = Inr ([[2, - 1], [- 1, 1]], [(0, 0), (1, 0)])
   \<and> gauss_spsolve [[2, - 1], [- 1, 1]] [(0, 0), (1, 0)] = Inr [(1, 0), (2, 0)]
   \<and> dot_points [[2, - 1], [- 1, 1]] [(1, 0), (2, 0)] = Inr [(0, 0), (1, 0)]
   \<and> (\<exists>a sol. key_index chain_force (anchor chain_force) = Some a
         \<and> xy_of (chain_force\<lparr>vertices := [vtx 0 0 0 False, vtx 1 1 0 False, vtx 2 2 0 False]\<rparr>) ! a
             = xy_of chain_force ! a
         \<and> map ((!) (xy_of (chain_force\<lparr>vertices :=
                    [vtx 0 0 0 False, vtx 1 1 0 False, vtx 2 2 0 False]\<rparr>)))
               (complement_indices ascending_order (length (vertices chain_force)) [[a]]) = sol)"
proof -
  note h = chain_update
  note k = chain_keys
  have s: "force_system chain_force path_form
       = Inr ([[1, - 1, 0], [- 1, 2, - 1], [0, - 1, 1]], [(- 1, 0), (0, 0), (1, 0)],
              [(0, 0), (3, 0), (7, 7)], 0)"
    by code_simp
  have r: "reduced_system ascending_order [[1, - 1, 0], [- 1, 2, - 1], [0, - 1, 1]] [(- 1, 0), (0, 0), (1, 0)]
         [(0, 0), (3, 0), (7, 7)] [0]
       = Inr ([[2, - 1], [- 1, 1]], [(0, 0), (1, 0)])"
    by code_simp
  have g: "gauss_spsolve [[2, - 1], [- 1, 1]] [(0, 0), (1, 0)] = Inr [(1, 0), (2, 0)]"
    by code_simp
  have c: "dot_points [[2, - 1], [- 1, 1]] [(1, 0), (2, 0)] = Inr [(0, 0), (1, 0)]"
    by code_simp
  from force_update_single_solve [OF h k] obtain a sol where
    "key_index chain_force (anchor chain_force) = Some a"
    "xy_of (chain_force\<lparr>vertices := [vtx 0 0 0 False, vtx 1 1 0 False, vtx 2 2 0 False]\<rparr>) ! a
       = xy_of chain_force ! a"
    "map ((!) (xy_of (chain_force\<lparr>vertices :=
                [vtx 0 0 0 False, vtx 1 1 0 False, vtx 2 2 0 False]\<rparr>)))
       (complement_indices ascending_order (length (vertices chain_force)) [[a]]) = sol"
    by (elim exE conjE)
  with h k s r g c show ?thesis by (intro conjI exI)
qed




text \<open>
  C5. For every input, \<open>form_update_from_force_proxy\<close> raises UnboundLocalError: its first
  statement reads the local name \<open>form\<close>, which is assigned only by that statement, and
  the frame holds the parameters \<open>formdata\<close> and \<open>forcedata\<close> only. No diagram is
  constructed, no update runs and no form data is returned, whatever the constructors,
  the update and the serialiser do.
\<close>

theorem proxy_unbound_local:
  "form_update_from_force_proxy form_from_data force_from_data update to_data formdata forcedata
     = Inl UnboundLocalError"
  by (simp add: form_update_from_force_proxy_def load_fast_def)

text \<open>
  C6. For every form diagram (and every \<open>dof\<close> routine), \<open>form_count_dof\<close> returns the pair
  \<open>(k, m)\<close> of the triple that \<open>form_identify_dof\<close> returns on the same diagram, and it
  raises the same exception when \<open>form_identify_dof\<close> raises one.
\<close>

theorem count_dof_agrees:
  "form_count_dof so dof form =
     map_sum id (\<lambda>(k, m, ind). (k, m)) (form_identify_dof so dof form)"
proof -
  have "bind_err (dof E) (\<lambda>(k, m). Inr (k, m)) =
        map_sum id (\<lambda>(k, m, ind). (k, m))
          (bind_err (dof E) (\<lambda>(k, m).
             bind_err (take_rows es (nonpivots so (rref E))) (\<lambda>ind_edges. Inr (k, m, ind_edges))))"
    if "connectivity_matrix es = Inr C" and "equilibrium_matrix C xy free = Inr E"
    for es C xy free E
    using independent_edges_in_range [OF that]
    by (cases "dof E") (auto simp: bind_err_def)
  then show ?thesis
    unfolding form_count_dof_def form_identify_dof_def Let_def
    by (auto simp: bind_err_def split: sum.splits)
qed

text \<open>
  C7. On the triangle with vertices 0, 1, 2, vertex 0 fixed at the origin, all three edges
  independent with \<open>q = 1\<close>, \<open>form_update_q_from_qind\<close> returns; every \<open>q\<close> is 1 afterwards,
  and \<open>f = l\<close> on every edge, \<open>l\<close> being the length of the edge.
\<close>

theorem triangle_update_q:
  "\<exists>form'. form_update_q_from_qind so (triangle x1 y1 x2 y2) = Inr form'
     \<and> vertices form' = vertices (triangle x1 y1 x2 y2)
     \<and> map edge_key (edges form') = [(0, 1), (1, 2), (2, 0)]
     \<and> map attr_q (edges form') = [1, 1, 1]
     \<and> map attr_f (edges form') = map attr_l (edges form')
     \<and> map attr_l (edges form')
         = [sqrt (x1\<^sup>2 + y1\<^sup>2), sqrt ((x2 - x1)\<^sup>2 + (y2 - y1)\<^sup>2), sqrt (x2\<^sup>2 + y2\<^sup>2)]"
  unfolding form_update_q_from_qind_def triangle_def tri_update_q_run
  by (simp add: tri_form_def edg_def write_qfl_def edge_key_def lookup_def nth_err_def)

text \<open>
  C8, as stated, at \<open>N = 0\<close>: an empty collection has no first constraint to take the
  number of columns from, and \<open>compute_constraints\<close> raises IndexError instead of
  returning a Jacobian without rows.
\<close>

theorem compute_constraints_empty:
  "compute_constraints [] = Inl IndexError"
  by (simp add: compute_constraints_def)

text \<open>
  C8, amended. For \<open>N \<ge> 1\<close> constraints, each a \<open>HorizontalFix\<close> or a \<open>VerticalFix\<close> on a
  vertex of a diagram with \<open>n\<close> vertices, \<open>compute_constraints\<close> returns a Jacobian of
  exactly \<open>N\<close> rows of width \<open>2 n\<close> in insertion order, the row of a constraint being all
  zeros except a 1 at the index of its vertex (\<open>HorizontalFix\<close>) or at that index plus \<open>n\<close>
  (\<open>VerticalFix\<close>), and a residual of \<open>N\<close> zeros.
\<close>

theorem compute_constraints_one_hot:
  assumes "cs \<noteq> []"
    and "\<forall>c \<in> set cs. number_of_vertices (constraint_form c) = n
                        \<and> constraint_column c \<noteq> None"
  shows "compute_constraints cs =
           Inr (map (\<lambda>c. (replicate (2 * n) 0)[the (constraint_column c) := 1]) cs,
                replicate (length cs) 0)"
proof -
  from assms(1) obtain c0 cs' where cs: "cs = c0 # cs'" by (cases cs) auto
  with assms(2) have n0: "number_of_cols c0 = 2 * n" by (simp add: number_of_cols_def)
  have all: "\<forall>c \<in> set cs. number_of_cols c = 2 * n \<and> constraint_column c \<noteq> None"
    using assms(2) by (simp add: number_of_cols_def)
  have "compute_constraints cs = stack_constraints (2 * n) cs ([], [])"
    using cs n0 by (simp add: compute_constraints_def)
  also have "\<dots> = Inr ([] @ map (\<lambda>c. one_hot (2 * n) (the (constraint_column c))) cs,
                         [] @ replicate (length cs) 0)"
    by (rule stack_constraints_all [OF all])
  finally show ?thesis by (simp add: one_hot_def)
qed

theorem compute_constraints_one_hot_witness:
  "[HorizontalFix form3 0, VerticalFix form3 2] \<noteq> []
   \<and> number_of_vertices (constraint_form (HorizontalFix form3 0)) = 3
   \<and> constraint_column (HorizontalFix form3 0) = Some 0
   \<and> number_of_vertices (constraint_form (VerticalFix form3 2)) = 3
   \<and> constraint_column (VerticalFix form3 2) = Some 5
   \<and> compute_constraints [HorizontalFix form3 0, VerticalFix form3 2] =
       Inr ([[1, 0, 0, 0, 0, 0], [0, 0, 0, 0, 0, 1]], [0, 0])"
proof -
  have h1: "[HorizontalFix form3 0, VerticalFix form3 2] \<noteq> []" by simp
  have n3: "number_of_vertices form3 = 3"
    by (simp add: form3_def number_of_vertices_def)
  have k0: "constraint_column (HorizontalFix form3 0) = Some 0"
    by (simp add: form3_def vtx_def key_index_def map_add_def)
  have k2: "constraint_column (VerticalFix form3 2) = Some 5"
    by (simp add: form3_def vtx_def number_of_vertices_def key_index_def map_add_def)
  have h2: "\<forall>c \<in> set [HorizontalFix form3 0, VerticalFix form3 2].
              number_of_vertices (constraint_form c) = 3 \<and> constraint_column c \<noteq> None"
    using n3 k0 k2 by (simp del: constraint_column.simps)
  have r3: "replicate 6 (0::real) = [0, 0, 0, 0, 0, 0]"
    by (simp add: numeral_eq_Suc)
  show ?thesis
    using h1 n3 k0 k2 r3 compute_constraints_one_hot [OF h1 h2]
    by (simp add: numeral_eq_Suc)
qed

text \<open>
  C9, as stated: two constraints built against diagrams with three and with four vertices.
  The second row has eight columns where the Jacobian has six, and the stacking raises
  ValueError; InconsistentConstraintError is not raised.
\<close>

theorem compute_constraints_mixed_counterexample:
  "compute_constraints [HorizontalFix form3 0, HorizontalFix form4 0] = Inl ValueError
   \<and> compute_constraints [HorizontalFix form3 0, HorizontalFix form4 0]
       \<noteq> Inl InconsistentConstraintError"
  by (simp add: compute_constraints_def number_of_cols_def number_of_vertices_def
      lookup_def set_one_def key_index_def map_add_def form3_def form4_def vtx_def)

text \<open>
  C9, amended. If a collection contains two constraints built against diagrams with
  different vertex counts, \<open>compute_constraints\<close> fails: with the ValueError of the row
  stacking, or with the KeyError of a constraint whose vertex is not in its diagram; when
  every constraint's vertex is in its diagram, it is the ValueError.
\<close>

theorem compute_constraints_mixed_fails:
  assumes "c1 \<in> set cs" and "c2 \<in> set cs"
    and "number_of_vertices (constraint_form c1) \<noteq> number_of_vertices (constraint_form c2)"
  shows "(compute_constraints cs = Inl ValueError \<or> compute_constraints cs = Inl KeyError)
         \<and> ((\<forall>c \<in> set cs. constraint_column c \<noteq> None)
              \<longrightarrow> compute_constraints cs = Inl ValueError)"
proof -
  from assms(1) obtain c0 cs' where cs: "cs = c0 # cs'" by (cases cs) auto
  have "number_of_cols c1 \<noteq> number_of_cols c0 \<or> number_of_cols c2 \<noteq> number_of_cols c0"
    using assms(3) by (auto simp: number_of_cols_def)
  with assms(1,2) have mis: "\<exists>c \<in> set cs. number_of_cols c \<noteq> number_of_cols c0" by blast
  have unf: "compute_constraints cs = stack_constraints (number_of_cols c0) cs ([], [])"
    using cs by (simp add: compute_constraints_def)
  show ?thesis
    using stack_constraints_mismatch [OF mis, of "[]" "[]"]
      stack_constraints_mismatch_known [OF mis, of "[]" "[]"] unf
    by auto
qed

theorem compute_constraints_mixed_fails_witness:
  "HorizontalFix form3 0 \<in> set [HorizontalFix form3 0, VerticalFix form4 3]
   \<and> VerticalFix form4 3 \<in> set [HorizontalFix form3 0, VerticalFix form4 3]
   \<and> number_of_vertices (constraint_form (HorizontalFix form3 0))
       \<noteq> number_of_vertices (constraint_form (VerticalFix form4 3))
   \<and> constraint_column (HorizontalFix form3 0) = Some 0
   \<and> constraint_column (VerticalFix form4 3) = Some 7
   \<and> compute_constraints [HorizontalFix form3 0, VerticalFix form4 3] = Inl ValueError"
proof -
  have h1: "HorizontalFix form3 0 \<in> set [HorizontalFix form3 0, VerticalFix form4 3]" by simp
  have h2: "VerticalFix form4 3 \<in> set [HorizontalFix form3 0, VerticalFix form4 3]" by simp
  have h3: "number_of_vertices (constraint_form (HorizontalFix form3 0))
              \<noteq> number_of_vertices (constraint_form (VerticalFix form4 3))"
    by (simp add: number_of_vertices_def form3_def form4_def)
  have k0: "constraint_column (HorizontalFix form3 0) = Some 0"
    by (simp add: form3_def vtx_def key_index_def map_add_def)
  have k3: "constraint_column (VerticalFix form4 3) = Some 7"
    by (simp add: form4_def vtx_def number_of_vertices_def key_index_def map_add_def)
  have h4: "\<forall>c \<in> set [HorizontalFix form3 0, VerticalFix form4 3]. constraint_column c \<noteq> None"
    using k0 k3 by (simp del: constraint_column.simps)
  show ?thesis
    using h1 h2 h3 h4 k0 k3 compute_constraints_mixed_fails [OF h1 h2 h3] by blast
qed

text \<open>
  C10. Whatever routine overwrites \<open>q\<close>, when \<open>form_update_q_from_qind\<close> returns, an edge
  whose \<open>is_edge\<close> is not set is unchanged, \<open>q\<close>, \<open>f\<close> and \<open>l\<close> included; the vertices, the
  number and order of the edges, and on every edge the end keys and the attributes \<open>a\<close>,
  \<open>is_edge\<close> and \<open>is_ind\<close> are unchanged as well.
\<close>

theorem update_q_frame:
  assumes "form_update_q_from_qind_with so upd form = Inr form'"
  shows "vertices form' = vertices form
         \<and> length (edges form') = length (edges form)
         \<and> (\<forall>i < length (edges form).
               (\<not> attr_is_edge (edges form ! i) \<longrightarrow> edges form' ! i = edges form ! i)
               \<and> edge_key (edges form' ! i) = edge_key (edges form ! i)
               \<and> attr_a (edges form' ! i) = attr_a (edges form ! i)
               \<and> attr_is_edge (edges form' ! i) = attr_is_edge (edges form ! i)
               \<and> attr_is_ind (edges form' ! i) = attr_is_ind (edges form ! i))"
proof -
  from assms obtain q f l es' where
    w: "map_err (write_qfl (uv_index form) q f l) (edges form) = Inr es'"
    and f: "form' = form\<lparr>edges := es'\<rparr>"
    unfolding form_update_q_from_qind_with_def Let_def
    by (auto simp: bind_err_eq_Inr)
  from map_err_Inr [OF w] write_qfl_frame f show ?thesis
    by auto
qed

theorem update_q_frame_witness:
  "form_update_q_from_qind_with ascending_order update_q_from_qind hinged =
     Inr (hinged\<lparr>edges := [(edg 0 1 1 True True)\<lparr>attr_f := 3, attr_l := 3\<rparr>,
                           (edg 1 2 1 True True)\<lparr>attr_f := 5, attr_l := 5\<rparr>,
                           edg 2 0 5 False True]\<rparr>)
   \<and> \<not> attr_is_edge (edges hinged ! 2)
   \<and> edges (hinged\<lparr>edges := [(edg 0 1 1 True True)\<lparr>attr_f := 3, attr_l := 3\<rparr>,
                               (edg 1 2 1 True True)\<lparr>attr_f := 5, attr_l := 5\<rparr>,
                               edg 2 0 5 False True]\<rparr>) ! 2 = edges hinged ! 2"
proof -
  note h = hinged_update_q [of ascending_order]
  have n: "\<not> attr_is_edge (edges hinged ! 2)" "2 < length (edges hinged)"
    by (simp_all add: hinged_def tri_form_def edg_def)
  from update_q_frame [OF h] n
  have "edges (hinged\<lparr>edges := [(edg 0 1 1 True True)\<lparr>attr_f := 3, attr_l := 3\<rparr>,
                               (edg 1 2 1 True True)\<lparr>attr_f := 5, attr_l := 5\<rparr>,
                               edg 2 0 5 False True]\<rparr>) ! 2 = edges hinged ! 2"
    by blast
  with h n show ?thesis by (intro conjI)
qed

end
